theory Spec2Isabelle
  imports Main "HOL-Library.Word"
begin

section \<open>Go types, values and memory\<close>

text \<open>
  The decoder of \<^verbatim>\<open>decode.go\<close> works on its argument through run-time reflection. The
  part of the Go data model that it can observe is embedded here: the kinds of
  \<^verbatim>\<open>reflect.Kind\<close>, type descriptors, values, and a store of allocated objects.
\<close>

datatype kind =
    KInvalid | KBool
  | KInt | KInt8 | KInt16 | KInt32 | KInt64
  | KUint | KUint8 | KUint16 | KUint32 | KUint64 | KUintptr
  | KFloat32 | KFloat64 | KComplex64 | KComplex128
  | KArray | KChan | KFunc | KInterface | KMap | KPtr | KSlice | KString | KStruct
  | KUnsafePointer

text \<open>\<^verbatim>\<open>Kind.String()\<close>.\<close>

fun kind_String :: "kind \<Rightarrow> string" where
  "kind_String KInvalid = ''invalid''"
| "kind_String KBool = ''bool''"
| "kind_String KInt = ''int''"
| "kind_String KInt8 = ''int8''"
| "kind_String KInt16 = ''int16''"
| "kind_String KInt32 = ''int32''"
| "kind_String KInt64 = ''int64''"
| "kind_String KUint = ''uint''"
| "kind_String KUint8 = ''uint8''"
| "kind_String KUint16 = ''uint16''"
| "kind_String KUint32 = ''uint32''"
| "kind_String KUint64 = ''uint64''"
| "kind_String KUintptr = ''uintptr''"
| "kind_String KFloat32 = ''float32''"
| "kind_String KFloat64 = ''float64''"
| "kind_String KComplex64 = ''complex64''"
| "kind_String KComplex128 = ''complex128''"
| "kind_String KArray = ''array''"
| "kind_String KChan = ''chan''"
| "kind_String KFunc = ''func''"
| "kind_String KInterface = ''interface''"
| "kind_String KMap = ''map''"
| "kind_String KPtr = ''ptr''"
| "kind_String KSlice = ''slice''"
| "kind_String KString = ''string''"
| "kind_String KStruct = ''struct''"
| "kind_String KUnsafePointer = ''unsafe.Pointer''"

text \<open>
  A type descriptor. A struct type carries its name (empty for an unnamed struct type) and
  its fields in declaration order; a field is what \<^verbatim>\<open>reflect.StructField\<close> exposes to the
  decoder: \<^verbatim>\<open>Name\<close>, \<^verbatim>\<open>PkgPath\<close> (empty exactly for an exported field), the struct tag
  as its list of key/value pairs, and the field's type. Type descriptors are finite trees, so
  a type that refers to itself through a pointer is outside the embedding.
\<close>

datatype gtype =
    TBool
  | TInt | TInt8 | TInt16 | TInt32 | TInt64
  | TUint | TUint8 | TUint16 | TUint32 | TUint64 | TUintptr
  | TFloat32 | TFloat64 | TComplex64 | TComplex128
  | TString
  | TArray nat gtype | TSlice gtype | TMap gtype gtype
  | TChan gtype | TFunc | TInterface | TUnsafePointer
  | TPtr gtype
  | TStruct string "sfield list"
and sfield = SField (Name: string) (PkgPath: string) (Tag: "(string \<times> string) list") (Type: gtype)

fun type_Kind :: "gtype \<Rightarrow> kind" where
  "type_Kind TBool = KBool"
| "type_Kind TInt = KInt"
| "type_Kind TInt8 = KInt8"
| "type_Kind TInt16 = KInt16"
| "type_Kind TInt32 = KInt32"
| "type_Kind TInt64 = KInt64"
| "type_Kind TUint = KUint"
| "type_Kind TUint8 = KUint8"
| "type_Kind TUint16 = KUint16"
| "type_Kind TUint32 = KUint32"
| "type_Kind TUint64 = KUint64"
| "type_Kind TUintptr = KUintptr"
| "type_Kind TFloat32 = KFloat32"
| "type_Kind TFloat64 = KFloat64"
| "type_Kind TComplex64 = KComplex64"
| "type_Kind TComplex128 = KComplex128"
| "type_Kind TString = KString"
| "type_Kind (TArray n t) = KArray"
| "type_Kind (TSlice t) = KSlice"
| "type_Kind (TMap k t) = KMap"
| "type_Kind (TChan t) = KChan"
| "type_Kind TFunc = KFunc"
| "type_Kind TInterface = KInterface"
| "type_Kind TUnsafePointer = KUnsafePointer"
| "type_Kind (TPtr t) = KPtr"
| "type_Kind (TStruct n fs) = KStruct"

text \<open>
  A location is an allocated object together with a path of field or element indices into
  it (the address of a struct field is an interior pointer). \<open>Ext\<close> names an object that
  only the standard library creates or owns (a time zone, say); the decoder never looks
  inside one.
\<close>

datatype loc = Loc nat "nat list" | Ext string

text \<open>
  Values. An integer of width \<open>w\<close> is a \<open>w word\<close>; \<^verbatim>\<open>int\<close>, \<^verbatim>\<open>uint\<close> and
  \<^verbatim>\<open>uintptr\<close> are taken at 64 bits. A floating-point number is its IEEE-754 bit pattern.
  A pointer is a location or nil (\<open>None\<close>).
\<close>

datatype gval =
    VBool bool
  | VInt "64 word" | VInt8 "8 word" | VInt16 "16 word" | VInt32 "32 word" | VInt64 "64 word"
  | VUint "64 word" | VUint8 "8 word" | VUint16 "16 word" | VUint32 "32 word"
  | VUint64 "64 word" | VUintptr "64 word"
  | VFloat32 "32 word" | VFloat64 "64 word"
  | VComplex64 "32 word" "32 word" | VComplex128 "64 word" "64 word"
  | VString string
  | VArray "gval list" | VSlice "gval list option" | VMap "(gval \<times> gval) list option"
  | VChan "nat option" | VFunc "nat option" | VInterface "(gtype \<times> gval) option"
  | VUnsafePointer "loc option"
  | VPtr "loc option"
  | VStruct "gval list"

text \<open>The zero value of a type, as \<^verbatim>\<open>reflect.New\<close> initialises it.\<close>

fun zero :: "gtype \<Rightarrow> gval" and zero_fields :: "sfield list \<Rightarrow> gval list" where
  "zero TBool = VBool False"
| "zero TInt = VInt 0"
| "zero TInt8 = VInt8 0"
| "zero TInt16 = VInt16 0"
| "zero TInt32 = VInt32 0"
| "zero TInt64 = VInt64 0"
| "zero TUint = VUint 0"
| "zero TUint8 = VUint8 0"
| "zero TUint16 = VUint16 0"
| "zero TUint32 = VUint32 0"
| "zero TUint64 = VUint64 0"
| "zero TUintptr = VUintptr 0"
| "zero TFloat32 = VFloat32 0"
| "zero TFloat64 = VFloat64 0"
| "zero TComplex64 = VComplex64 0 0"
| "zero TComplex128 = VComplex128 0 0"
| "zero TString = VString []"
| "zero (TArray n t) = VArray (replicate n (zero t))"
| "zero (TSlice t) = VSlice None"
| "zero (TMap k t) = VMap None"
| "zero (TChan t) = VChan None"
| "zero TFunc = VFunc None"
| "zero TInterface = VInterface None"
| "zero TUnsafePointer = VUnsafePointer None"
| "zero (TPtr t) = VPtr None"
| "zero (TStruct n fs) = VStruct (zero_fields fs)"
| "zero_fields [] = []"
| "zero_fields (SField n p tg t # fs) = zero t # zero_fields fs"

text \<open>The store: object \<open>a\<close> is the \<open>a\<close>-th allocation; allocating appends.\<close>

type_synonym store = "gval list"

fun sub :: "gval \<Rightarrow> nat list \<Rightarrow> gval option" where
  "sub v [] = Some v"
| "sub (VStruct vs) (i # p) = (if i < length vs then sub (vs ! i) p else None)"
| "sub (VArray vs) (i # p) = (if i < length vs then sub (vs ! i) p else None)"
| "sub v (i # p) = None"

fun upd :: "gval \<Rightarrow> nat list \<Rightarrow> gval \<Rightarrow> gval option" where
  "upd v [] x = Some x"
| "upd (VStruct vs) (i # p) x =
     (if i < length vs then map_option (\<lambda>y. VStruct (vs[i := y])) (upd (vs ! i) p x) else None)"
| "upd (VArray vs) (i # p) x =
     (if i < length vs then map_option (\<lambda>y. VArray (vs[i := y])) (upd (vs ! i) p x) else None)"
| "upd v (i # p) x = None"

fun load :: "store \<Rightarrow> loc \<Rightarrow> gval option" where
  "load st (Loc a p) = (if a < length st then sub (st ! a) p else None)"
| "load st (Ext n) = None"

fun store_at :: "store \<Rightarrow> loc \<Rightarrow> gval \<Rightarrow> store option" where
  "store_at st (Loc a p) x =
     (if a < length st then map_option (\<lambda>y. st[a := y]) (upd (st ! a) p x) else None)"
| "store_at st (Ext n) x = None"


section \<open>Reflection\<close>

text \<open>
  A run of the decoder ends in one of three ways: it returns (an error value or nil), it
  panics, or it would need an object that the store does not hold with the shape its type
  announces. The last case corresponds to no Go execution and is kept apart as \<open>Stuck\<close>.
\<close>

datatype fault = Panic string | Stuck

text \<open>
  A \<^verbatim>\<open>reflect.Value\<close>: the zero Value, a value that is not addressable (a copy, as
  \<^verbatim>\<open>reflect.ValueOf\<close> and \<^verbatim>\<open>Addr\<close> return), or an addressable variable at a location.
\<close>

datatype rvalue = RZero | RTmp gtype gval | RVar gtype loc

fun rv_Kind :: "rvalue \<Rightarrow> kind" where
  "rv_Kind RZero = KInvalid"
| "rv_Kind (RTmp t x) = type_Kind t"
| "rv_Kind (RVar t l) = type_Kind t"

fun rv_get :: "store \<Rightarrow> rvalue \<Rightarrow> gval option" where
  "rv_get st RZero = None"
| "rv_get st (RTmp t x) = Some x"
| "rv_get st (RVar t l) = load st l"

fun reflect_ValueOf :: "(gtype \<times> gval) option \<Rightarrow> rvalue" where
  "reflect_ValueOf None = RZero"
| "reflect_ValueOf (Some (t, x)) = RTmp t x"

fun reflect_TypeOf :: "(gtype \<times> gval) option \<Rightarrow> gtype option" where
  "reflect_TypeOf None = None"
| "reflect_TypeOf (Some (t, x)) = Some t"

text \<open>\<^verbatim>\<open>Type.Elem()\<close>: the element type; it panics on a kind that has none.\<close>

definition type_Elem :: "gtype \<Rightarrow> fault + gtype" where
  "type_Elem t =
     (case t of
        TPtr e \<Rightarrow> Inr e
      | TArray n e \<Rightarrow> Inr e
      | TSlice e \<Rightarrow> Inr e
      | TMap k e \<Rightarrow> Inr e
      | TChan e \<Rightarrow> Inr e
      | _ \<Rightarrow> Inl (Panic ''reflect: Elem of invalid type''))"

text \<open>\<^verbatim>\<open>Type.Field(i)\<close> and \<^verbatim>\<open>Value.NumField()\<close>.\<close>

definition type_Field :: "gtype \<Rightarrow> nat \<Rightarrow> fault + sfield" where
  "type_Field t i =
     (case t of
        TStruct n fs \<Rightarrow>
          if i < length fs then Inr (fs ! i) else Inl (Panic ''reflect: Field index out of bounds'')
      | _ \<Rightarrow> Inl (Panic ''reflect: Field of non-struct type''))"

definition wrong_kind :: "string \<Rightarrow> rvalue \<Rightarrow> fault" where
  "wrong_kind m v =
     Panic (''reflect: call of '' @ m @ '' on ''
            @ (if rv_Kind v = KInvalid then ''zero'' else kind_String (rv_Kind v)) @ '' Value'')"

fun rv_Type :: "rvalue \<Rightarrow> gtype option" where
  "rv_Type RZero = None"
| "rv_Type (RTmp t x) = Some t"
| "rv_Type (RVar t l) = Some t"

definition rv_NumField :: "rvalue \<Rightarrow> fault + nat" where
  "rv_NumField v =
     (case rv_Type v of
        Some (TStruct n fs) \<Rightarrow> Inr (length fs)
      | _ \<Rightarrow> Inl (wrong_kind ''reflect.Value.NumField'' v))"

text \<open>
  \<^verbatim>\<open>Value.IsNil()\<close>: defined on the kinds that have a nil, a panic on the others.
\<close>

definition nil_of :: "gval \<Rightarrow> bool option" where
  "nil_of x =
     (case x of
        VPtr p \<Rightarrow> Some (p = None)
      | VChan c \<Rightarrow> Some (c = None)
      | VFunc f \<Rightarrow> Some (f = None)
      | VMap m \<Rightarrow> Some (m = None)
      | VSlice xs \<Rightarrow> Some (xs = None)
      | VInterface i \<Rightarrow> Some (i = None)
      | VUnsafePointer p \<Rightarrow> Some (p = None)
      | _ \<Rightarrow> None)"

definition rv_IsNil :: "store \<Rightarrow> rvalue \<Rightarrow> fault + bool" where
  "rv_IsNil st v =
     (if rv_Kind v \<in> {KChan, KFunc, KInterface, KMap, KPtr, KSlice, KUnsafePointer} then
        (case rv_get st v of
           None \<Rightarrow> Inl Stuck
         | Some x \<Rightarrow> (case nil_of x of None \<Rightarrow> Inl Stuck | Some b \<Rightarrow> Inr b))
      else Inl (wrong_kind ''reflect.Value.IsNil'' v))"

text \<open>
  \<^verbatim>\<open>Value.Elem()\<close>: the variable a pointer points to (addressable), the zero Value for a
  nil pointer, the dynamic value of an interface; a panic on every other kind.
\<close>

definition rv_Elem :: "store \<Rightarrow> rvalue \<Rightarrow> fault + rvalue" where
  "rv_Elem st v =
     (if rv_Kind v = KPtr then
        (case (rv_Type v, rv_get st v) of
           (Some (TPtr t), Some (VPtr None)) \<Rightarrow> Inr RZero
         | (Some (TPtr t), Some (VPtr (Some l))) \<Rightarrow> Inr (RVar t l)
         | _ \<Rightarrow> Inl Stuck)
      else if rv_Kind v = KInterface then
        (case rv_get st v of
           Some (VInterface None) \<Rightarrow> Inr RZero
         | Some (VInterface (Some (t, x))) \<Rightarrow> Inr (RTmp t x)
         | _ \<Rightarrow> Inl Stuck)
      else Inl (wrong_kind ''reflect.Value.Elem'' v))"

text \<open>
  Writing through a Value needs an addressable one: \<^verbatim>\<open>Value.Set\<close> and the typed setters
  panic on a Value that is not.
\<close>

definition unaddressable :: "string \<Rightarrow> fault" where
  "unaddressable m = Panic (''reflect: '' @ m @ '' using unaddressable value'')"

fun rv_put :: "string \<Rightarrow> store \<Rightarrow> rvalue \<Rightarrow> gval \<Rightarrow> fault + store" where
  "rv_put m st (RVar t l) x = (case store_at st l x of None \<Rightarrow> Inl Stuck | Some st' \<Rightarrow> Inr st')"
| "rv_put m st (RTmp t y) x = Inl (unaddressable m)"
| "rv_put m st RZero x = Inl (Panic (''reflect: call of '' @ m @ '' on zero Value''))"

definition rv_Set :: "store \<Rightarrow> rvalue \<Rightarrow> rvalue \<Rightarrow> fault + store" where
  "rv_Set st v x =
     (case v of
        RVar t l \<Rightarrow>
          (case x of
             RZero \<Rightarrow> Inl (Panic ''reflect: call of reflect.Value.Set on zero Value'')
           | RTmp tx y \<Rightarrow>
               if tx = t then rv_put ''reflect.Value.Set'' st v y
               else Inl (Panic ''reflect.Set: value is not assignable to the type'')
           | RVar tx lx \<Rightarrow>
               if tx = t then
                 (case load st lx of None \<Rightarrow> Inl Stuck | Some y \<Rightarrow> rv_put ''reflect.Value.Set'' st v y)
               else Inl (Panic ''reflect.Set: value is not assignable to the type''))
      | _ \<Rightarrow> rv_put ''reflect.Value.Set'' st v (VBool False))"

definition rv_SetString :: "store \<Rightarrow> rvalue \<Rightarrow> string \<Rightarrow> fault + store" where
  "rv_SetString st v x =
     (case v of
        RVar t l \<Rightarrow>
          if rv_Kind v = KString then rv_put ''reflect.Value.SetString'' st v (VString x)
          else Inl (wrong_kind ''reflect.Value.SetString'' v)
      | _ \<Rightarrow> rv_put ''reflect.Value.SetString'' st v (VString x))"

definition rv_SetBool :: "store \<Rightarrow> rvalue \<Rightarrow> bool \<Rightarrow> fault + store" where
  "rv_SetBool st v x =
     (case v of
        RVar t l \<Rightarrow>
          if rv_Kind v = KBool then rv_put ''reflect.Value.SetBool'' st v (VBool x)
          else Inl (wrong_kind ''reflect.Value.SetBool'' v)
      | _ \<Rightarrow> rv_put ''reflect.Value.SetBool'' st v (VBool x))"

text \<open>
  \<^verbatim>\<open>SetInt\<close> and \<^verbatim>\<open>SetUint\<close> take a 64-bit argument and store it converted to the
  field's own integer type, which keeps the low bits; \<^verbatim>\<open>SetFloat\<close> and \<^verbatim>\<open>SetComplex\<close>
  round to the field's precision, through the conversion handed in as \<open>narrow\<close>.
\<close>

definition int_val :: "kind \<Rightarrow> 64 word \<Rightarrow> gval option" where
  "int_val k x =
     (case k of
        KInt \<Rightarrow> Some (VInt x)
      | KInt8 \<Rightarrow> Some (VInt8 (ucast x))
      | KInt16 \<Rightarrow> Some (VInt16 (ucast x))
      | KInt32 \<Rightarrow> Some (VInt32 (ucast x))
      | KInt64 \<Rightarrow> Some (VInt64 x)
      | _ \<Rightarrow> None)"

definition uint_val :: "kind \<Rightarrow> 64 word \<Rightarrow> gval option" where
  "uint_val k x =
     (case k of
        KUint \<Rightarrow> Some (VUint x)
      | KUintptr \<Rightarrow> Some (VUintptr x)
      | KUint8 \<Rightarrow> Some (VUint8 (ucast x))
      | KUint16 \<Rightarrow> Some (VUint16 (ucast x))
      | KUint32 \<Rightarrow> Some (VUint32 (ucast x))
      | KUint64 \<Rightarrow> Some (VUint64 x)
      | _ \<Rightarrow> None)"

definition float_val :: "(64 word \<Rightarrow> 32 word) \<Rightarrow> kind \<Rightarrow> 64 word \<Rightarrow> gval option" where
  "float_val narrow k x =
     (case k of
        KFloat32 \<Rightarrow> Some (VFloat32 (narrow x))
      | KFloat64 \<Rightarrow> Some (VFloat64 x)
      | _ \<Rightarrow> None)"

definition complex_val :: "(64 word \<Rightarrow> 32 word) \<Rightarrow> kind \<Rightarrow> 64 word \<times> 64 word \<Rightarrow> gval option" where
  "complex_val narrow k x =
     (case k of
        KComplex64 \<Rightarrow> Some (VComplex64 (narrow (fst x)) (narrow (snd x)))
      | KComplex128 \<Rightarrow> Some (VComplex128 (fst x) (snd x))
      | _ \<Rightarrow> None)"

definition rv_SetKind :: "string \<Rightarrow> store \<Rightarrow> rvalue \<Rightarrow> gval option \<Rightarrow> fault + store" where
  "rv_SetKind m st v x =
     (case v of
        RVar t l \<Rightarrow> (case x of None \<Rightarrow> Inl (wrong_kind m v) | Some y \<Rightarrow> rv_put m st v y)
      | _ \<Rightarrow> rv_put m st v (VBool False))"

definition rv_SetInt :: "store \<Rightarrow> rvalue \<Rightarrow> 64 word \<Rightarrow> fault + store" where
  "rv_SetInt st v x = rv_SetKind ''reflect.Value.SetInt'' st v (int_val (rv_Kind v) x)"

definition rv_SetUint :: "store \<Rightarrow> rvalue \<Rightarrow> 64 word \<Rightarrow> fault + store" where
  "rv_SetUint st v x = rv_SetKind ''reflect.Value.SetUint'' st v (uint_val (rv_Kind v) x)"

definition rv_SetFloat :: "(64 word \<Rightarrow> 32 word) \<Rightarrow> store \<Rightarrow> rvalue \<Rightarrow> 64 word \<Rightarrow> fault + store" where
  "rv_SetFloat narrow st v x =
     rv_SetKind ''reflect.Value.SetFloat'' st v (float_val narrow (rv_Kind v) x)"

definition rv_SetComplex ::
  "(64 word \<Rightarrow> 32 word) \<Rightarrow> store \<Rightarrow> rvalue \<Rightarrow> 64 word \<times> 64 word \<Rightarrow> fault + store" where
  "rv_SetComplex narrow st v x =
     rv_SetKind ''reflect.Value.SetComplex'' st v (complex_val narrow (rv_Kind v) x)"

text \<open>\<^verbatim>\<open>reflect.New(t)\<close>: a pointer to a new zero value of \<open>t\<close>.\<close>

definition reflect_New :: "gtype \<Rightarrow> store \<Rightarrow> rvalue \<times> store" where
  "reflect_New t st = (RTmp (TPtr t) (VPtr (Some (Loc (length st) []))), st @ [zero t])"

text \<open>\<^verbatim>\<open>Value.Addr()\<close> and \<^verbatim>\<open>Value.Field(i)\<close>.\<close>

fun rv_Addr :: "rvalue \<Rightarrow> fault + rvalue" where
  "rv_Addr (RVar t l) = Inr (RTmp (TPtr t) (VPtr (Some l)))"
| "rv_Addr v = Inl (Panic ''reflect.Value.Addr of unaddressable value'')"

definition rv_Field :: "rvalue \<Rightarrow> nat \<Rightarrow> fault + rvalue" where
  "rv_Field v i =
     (case rv_Type v of
        Some (TStruct n fs) \<Rightarrow>
          if i < length fs then
            (case v of
               RVar t (Loc a p) \<Rightarrow> Inr (RVar (Type (fs ! i)) (Loc a (p @ [i])))
             | RTmp t x \<Rightarrow>
                 (case sub x [i] of None \<Rightarrow> Inl Stuck | Some y \<Rightarrow> Inr (RTmp (Type (fs ! i)) y))
             | _ \<Rightarrow> Inl Stuck)
          else Inl (Panic ''reflect: Field index out of range'')
      | _ \<Rightarrow> Inl (wrong_kind ''reflect.Value.Field'' v))"


section \<open>Errors\<close>

text \<open>
  Go \<^verbatim>\<open>error\<close> values. \<open>DecodeError\<close> is the repository's own error type with its three
  fields; the others are the errors of the standard library that can reach the caller:
  \<^verbatim>\<open>*strconv.NumError\<close> (function, input, cause), an error made by \<^verbatim>\<open>fmt.Errorf\<close>,
  \<^verbatim>\<open>*time.ParseError\<close> (layout, value, layout element, value element) and an error of
  \<^verbatim>\<open>encoding/json\<close> by its message.
\<close>

datatype numerr = ErrSyntax | ErrRange

datatype error =
    DecodeError (description: string) (field: string) (err: "error option")
  | NumError string string numerr
  | ErrorString string
  | TimeParseError string string string string
  | JSONError string

definition newDecodeError :: "string \<Rightarrow> string \<Rightarrow> error option \<Rightarrow> error" where
  "newDecodeError d f e = DecodeError d f e"

definition Description :: "error \<Rightarrow> string" where
  "Description d = description d"

definition Field :: "error \<Rightarrow> string" where
  "Field d = field d"

definition Err :: "error \<Rightarrow> error option" where
  "Err d = err d"

section \<open>The standard library\<close>

subsection \<open>strconv, at base 10\<close>

text \<open>
  \<^verbatim>\<open>strconv.ParseBool\<close>, and \<^verbatim>\<open>strconv.ParseUint\<close> and \<^verbatim>\<open>strconv.ParseInt\<close> for the
  base 10 that the decoder passes. As in Go each returns a value together with an error or
  nil. The accumulator of \<^verbatim>\<open>ParseUint\<close> is a \<^verbatim>\<open>uint64\<close> and its overflow tests are the
  library's own.
\<close>

definition ParseBool :: "string \<Rightarrow> bool \<times> error option" where
  "ParseBool str =
     (if str \<in> set [''1'', ''t'', ''T'', ''true'', ''TRUE'', ''True''] then (True, None)
      else if str \<in> set [''0'', ''f'', ''F'', ''false'', ''FALSE'', ''False''] then (False, None)
      else (False, Some (NumError ''ParseBool'' str ErrSyntax)))"

definition is_digit :: "char \<Rightarrow> bool" where
  "is_digit c = (48 \<le> (of_char c :: nat) \<and> (of_char c :: nat) \<le> 57)"

definition digit_val :: "char \<Rightarrow> nat" where
  "digit_val c = of_char c - 48"

definition maxVal :: "nat \<Rightarrow> 64 word" where
  "maxVal bitSize = push_bit bitSize 1 - 1"

definition cutoff10 :: "64 word" where
  "cutoff10 = 1844674407370955162"

fun ParseUint_loop :: "nat \<Rightarrow> string \<Rightarrow> string \<Rightarrow> 64 word \<Rightarrow> 64 word \<times> error option" where
  "ParseUint_loop bitSize s0 [] n = (n, None)"
| "ParseUint_loop bitSize s0 (c # cs) n =
     (if \<not> is_digit c then (0, Some (NumError ''ParseUint'' s0 ErrSyntax))
      else if n \<ge> cutoff10 then (maxVal bitSize, Some (NumError ''ParseUint'' s0 ErrRange))
      else
        (let n' = n * 10; n1 = n' + of_nat (digit_val c) in
         if n1 < n' \<or> n1 > maxVal bitSize
         then (maxVal bitSize, Some (NumError ''ParseUint'' s0 ErrRange))
         else ParseUint_loop bitSize s0 cs n1))"

definition ParseUint :: "string \<Rightarrow> nat \<Rightarrow> 64 word \<times> error option" where
  "ParseUint s bitSize =
     (if s = [] then (0, Some (NumError ''ParseUint'' s ErrSyntax))
      else ParseUint_loop bitSize s s 0)"

definition ParseInt :: "string \<Rightarrow> nat \<Rightarrow> 64 word \<times> error option" where
  "ParseInt s0 bitSize =
     (if s0 = [] then (0, Some (NumError ''ParseInt'' s0 ErrSyntax))
      else
        (let neg = (hd s0 = CHR ''-'');
             s = (if hd s0 = CHR ''+'' \<or> hd s0 = CHR ''-'' then tl s0 else s0);
             (un, err) = ParseUint s bitSize
         in if (case err of Some (NumError f num k) \<Rightarrow> k \<noteq> ErrRange | _ \<Rightarrow> False)
            then (0, map_option (\<lambda>e. case e of NumError f num k \<Rightarrow> NumError ''ParseInt'' s0 k | _ \<Rightarrow> e) err)
            else
              (let cutoff = push_bit (bitSize - 1) 1 in
               if \<not> neg \<and> un \<ge> cutoff then (cutoff - 1, Some (NumError ''ParseInt'' s0 ErrRange))
               else if neg \<and> un > cutoff then (- cutoff, Some (NumError ''ParseInt'' s0 ErrRange))
               else (if neg then - un else un, None))))"

subsection \<open>strings and struct tags\<close>

text \<open>
  \<^verbatim>\<open>strings.Split(s, sep)\<close> for a separator of one byte, and \<^verbatim>\<open>StructTag.Get\<close> on the tag's
  list of key/value pairs (the value of the first pair with the key, the empty string when
  there is none).
\<close>

fun Split :: "string \<Rightarrow> char \<Rightarrow> string list" where
  "Split [] sep = [[]]"
| "Split (c # cs) sep =
     (if c = sep then [] # Split cs sep
      else (case Split cs sep of [] \<Rightarrow> [[c]] | w # ws \<Rightarrow> (c # w) # ws))"

fun Tag_Get :: "(string \<times> string) list \<Rightarrow> string \<Rightarrow> string" where
  "Tag_Get [] key = []"
| "Tag_Get ((k, v) # kvs) key = (if k = key then v else Tag_Get kvs key)"

subsection \<open>The environment\<close>

type_synonym env = "string \<rightharpoonup> string"

definition LookupEnv :: "env \<Rightarrow> string \<Rightarrow> string \<times> bool" where
  "LookupEnv env key = (case env key of None \<Rightarrow> ([], False) | Some v \<Rightarrow> (v, True))"

subsection \<open>Floating point, time and JSON\<close>

text \<open>
  The remaining library functions that the decoder calls are parameters of the embedding:
  parsing of floating-point and complex numbers, the floating-point operations of
  \<^verbatim>\<open>parseTime\<close>, \<^verbatim>\<open>time.Parse\<close>, \<^verbatim>\<open>time.Unix\<close>, \<^verbatim>\<open>json.Unmarshal\<close> and
  \<^verbatim>\<open>Type.String\<close>. Every theorem below holds for all of them. As in Go a parser returns
  a value together with an error or nil. \<^verbatim>\<open>json.Unmarshal\<close> is given the input, the
  target's type and the target's current value, and returns the target's new value; what it
  allocates for the target's pointers are objects of the library (\<open>Ext\<close>).
\<close>

record stdlib =
  ParseFloat :: "string \<Rightarrow> nat \<Rightarrow> 64 word \<times> error option"
  ParseComplex :: "string \<Rightarrow> nat \<Rightarrow> (64 word \<times> 64 word) \<times> error option"
  float32_of :: "64 word \<Rightarrow> 32 word"
  math_Modf :: "64 word \<Rightarrow> 64 word \<times> 64 word"
  float64_mul :: "64 word \<Rightarrow> 64 word \<Rightarrow> 64 word"
  int64_of :: "64 word \<Rightarrow> 64 word"
  time_Parse :: "string \<Rightarrow> string \<Rightarrow> gval \<times> error option"
  time_Unix :: "64 word \<Rightarrow> 64 word \<Rightarrow> gval"
  json_Unmarshal :: "string \<Rightarrow> gtype \<Rightarrow> gval \<Rightarrow> gval \<times> error option"
  type_String :: "gtype \<Rightarrow> string"

text \<open>The layout \<^verbatim>\<open>time.RFC3339Nano\<close> and the \<^verbatim>\<open>float64\<close> constant \<^verbatim>\<open>1e9\<close>.\<close>

definition RFC3339Nano :: string where
  "RFC3339Nano = ''2006-01-02T15:04:05.999999999Z07:00''"

definition float64_1e9 :: "64 word" where
  "float64_1e9 = 0x41CDCD6500000000"

text \<open>
  The type \<^verbatim>\<open>time.Time\<close>: a struct of three unexported fields, the last a pointer to a
  \<^verbatim>\<open>time.Location\<close>.
\<close>

definition time_zone :: gtype where
  "time_zone = TStruct ''time.zone''
     [SField ''name'' ''time'' [] TString, SField ''offset'' ''time'' [] TInt,
      SField ''isDST'' ''time'' [] TBool]"

definition time_zoneTrans :: gtype where
  "time_zoneTrans = TStruct ''time.zoneTrans''
     [SField ''when'' ''time'' [] TInt64, SField ''index'' ''time'' [] TUint8,
      SField ''isstd'' ''time'' [] TBool, SField ''isutc'' ''time'' [] TBool]"

definition time_Location :: gtype where
  "time_Location = TStruct ''time.Location''
     [SField ''name'' ''time'' [] TString, SField ''zone'' ''time'' [] (TSlice time_zone),
      SField ''tx'' ''time'' [] (TSlice time_zoneTrans), SField ''extend'' ''time'' [] TString,
      SField ''cacheStart'' ''time'' [] TInt64, SField ''cacheEnd'' ''time'' [] TInt64,
      SField ''cacheZone'' ''time'' [] (TPtr time_zone)]"

definition time_Time :: gtype where
  "time_Time = TStruct ''time.Time''
     [SField ''wall'' ''time'' [] TUint64, SField ''ext'' ''time'' [] TInt64,
      SField ''loc'' ''time'' [] (TPtr time_Location)]"


section \<open>The decoder\<close>

definition mapEnvTagName :: string where
  "mapEnvTagName = ''mpe''"

subsection \<open>getFieldTags\<close>

text \<open>
  The keys a struct field is looked up by: the non-empty entries of the \<^verbatim>\<open>mpe\<close> tag; if
  there are none, the first entry of the \<^verbatim>\<open>json\<close> tag when it is not empty; otherwise
  the field's name.
\<close>

definition getFieldTags :: "sfield \<Rightarrow> string list" where
  "getFieldTags t =
     (let res = [];
          tags = Tag_Get (Tag t) mapEnvTagName;
          res = (if length tags > 0
                 then foldl (\<lambda>res s. if length s > 0 then res @ [s] else res) res (Split tags CHR '','')
                 else res)
      in if length res > 0 then res
         else
           (let tags = Tag_Get (Tag t) ''json'';
                res = (if length tags > 0
                       then (let jsonTags = Split tags CHR '','' in
                             if length jsonTags > 0 \<and> length (jsonTags ! 0) > 0
                             then res @ [jsonTags ! 0] else res)
                       else res)
            in if length res > 0 then res else res @ [Name t]))"

subsection \<open>parseTime\<close>

text \<open>
  Three attempts in order: \<^verbatim>\<open>time.Parse\<close> with the layout \<^verbatim>\<open>RFC3339Nano\<close>, a number of
  Unix seconds, and \<^verbatim>\<open>json.Unmarshal\<close> into the \<^verbatim>\<open>time.Time\<close> left by the first attempt.
  The \<^verbatim>\<open>err\<close> of the second and of the third attempt are variables of their own
  \<^verbatim>\<open>if\<close> statements; the final \<^verbatim>\<open>return time.Time{}, err\<close> reads the first one.
\<close>

definition parseTime :: "stdlib \<Rightarrow> string \<Rightarrow> gval \<times> error option" where
  "parseTime lib s =
     (let (t, err) = time_Parse lib RFC3339Nano s in
      if err = None then (t, None)
      else
        (let (f, err2) = ParseFloat lib s 64 in
         if err2 = None then
           (let (sec, dec) = math_Modf lib f in
            (time_Unix lib (int64_of lib sec) (int64_of lib (float64_mul lib dec float64_1e9)), None))
         else
           (let (t', err3) = json_Unmarshal lib s time_Time t in
            if err3 = None then (t', None)
            else (zero time_Time, err))))"

subsection \<open>decodeValue\<close>

text \<open>
  \<open>decodeValue lib s v st\<close> converts the string \<open>s\<close> and writes it through the pointer
  \<open>v\<close>. The result is a fault, or the returned error (or nil) with the store after the call.
\<close>

definition ret_nil :: "fault + store \<Rightarrow> fault + (error option \<times> store)" where
  "ret_nil r = (case r of Inl f \<Rightarrow> Inl f | Inr st \<Rightarrow> Inr (None, st))"

definition unmarshal_into ::
  "stdlib \<Rightarrow> string \<Rightarrow> rvalue \<Rightarrow> store \<Rightarrow> fault + (error option \<times> store)" where
  "unmarshal_into lib s e st =
     (case e of
        RVar t l \<Rightarrow>
          (case load st l of
             None \<Rightarrow> Inl Stuck
           | Some cur \<Rightarrow>
               (let (new, err) = json_Unmarshal lib s t cur in
                case store_at st l new of None \<Rightarrow> Inl Stuck | Some st' \<Rightarrow> Inr (err, st')))
      | _ \<Rightarrow> Inr (Some (JSONError ''json: Unmarshal(non-pointer)''), st))"

fun rv_rank :: "rvalue \<Rightarrow> nat \<times> nat" where
  "rv_rank RZero = (0, 0)"
| "rv_rank (RTmp t x) = (if type_Kind t = KInterface then 1 else 0, size t)"
| "rv_rank (RVar t l) = (if type_Kind t = KInterface then 1 else 0, size t)"

function decodeValue :: "stdlib \<Rightarrow> string \<Rightarrow> rvalue \<Rightarrow> store \<Rightarrow> fault + (error option \<times> store)" where
  "decodeValue lib s v st =
     (case rv_Elem st v of
        Inl f \<Rightarrow> Inl f
      | Inr e \<Rightarrow>
          (let k = rv_Kind e in
           if k = KString then ret_nil (rv_SetString st e s)
           else if k = KBool then
             (let (b, err) = ParseBool s in
              if err \<noteq> None then Inr (err, st) else ret_nil (rv_SetBool st e b))
           else if k \<in> {KInt, KInt8, KInt16, KInt32, KInt64} then
             (let (i, err) = ParseInt s 64 in
              if err \<noteq> None then Inr (err, st) else ret_nil (rv_SetInt st e i))
           else if k \<in> {KUint, KUint8, KUint16, KUint32, KUint64, KUintptr} then
             (let (i, err) = ParseUint s 64 in
              if err \<noteq> None then Inr (err, st) else ret_nil (rv_SetUint st e i))
           else if k \<in> {KFloat32, KFloat64} then
             (let (f, err) = ParseFloat lib s 64 in
              if err \<noteq> None then Inr (err, st) else ret_nil (rv_SetFloat (float32_of lib) st e f))
           else if k \<in> {KComplex64, KComplex128} then
             (let (f, err) = ParseComplex lib s 128 in
              if err \<noteq> None then Inr (err, st) else ret_nil (rv_SetComplex (float32_of lib) st e f))
           else if k \<in> {KMap, KStruct, KArray, KSlice} then
             (if rv_Type v = Some (TPtr time_Time) then
                (let (t, err) = parseTime lib s in
                 if err \<noteq> None then Inr (err, st) else ret_nil (rv_Set st e (RTmp time_Time t)))
              else unmarshal_into lib s e st)
           else if k = KPtr then
             (case rv_IsNil st v of
                Inl f \<Rightarrow> Inl f
              | Inr isnil \<Rightarrow>
                  (case (if isnil then
                           (case rv_Type v of
                              None \<Rightarrow> Inl Stuck
                            | Some tv \<Rightarrow>
                                (case type_Elem tv of
                                   Inl f \<Rightarrow> Inl f
                                 | Inr te \<Rightarrow>
                                     (let (p, st1) = reflect_New te st in rv_Set st1 v p)))
                         else Inr st) of
                     Inl f \<Rightarrow> Inl f
                   | Inr st' \<Rightarrow>
                       (case rv_Elem st' v of
                          Inl f \<Rightarrow> Inl f
                        | Inr e' \<Rightarrow> decodeValue lib s e' st')))
           else if k \<in> {KChan, KFunc} then Inr (None, st)
           else Inr (Some (ErrorString (''unsupported field kind: '' @ kind_String k)), st)))"
  by pat_completeness auto


lemma rv_Elem_ptr_not_nil:
  "rv_Elem st v = Inr e \<Longrightarrow> rv_Kind e = KPtr \<Longrightarrow> rv_IsNil st v = Inr False"
  by (auto simp: rv_Elem_def rv_IsNil_def nil_of_def
      split: if_splits option.splits gval.splits gtype.splits prod.splits)

lemma rv_Elem_ptr_rank:
  "rv_Elem st v = Inr e \<Longrightarrow> rv_Kind e = KPtr \<Longrightarrow>
     (rv_rank e, rv_rank v) \<in> less_than <*lex*> less_than"
  by (cases v)
    (auto simp: rv_Elem_def split: if_splits option.splits gval.splits gtype.splits prod.splits)

termination decodeValue
proof (relation "inv_image (less_than <*lex*> less_than) (\<lambda>(lib, s, v, st). rv_rank v)", goal_cases)
  case 1
  show ?case by (intro wf_inv_image wf_lex_prod wf_less_than)
next
  case (2 lib s v st e k isnil st' e')
  have "isnil = False" using rv_Elem_ptr_not_nil[OF 2(1)] 2 by simp
  then have "e' = e" using 2 by simp
  then show ?case using rv_Elem_ptr_rank[OF 2(1)] 2 by simp
qed

declare decodeValue.simps [simp del]

subsection \<open>Decode\<close>

text \<open>
  The loop of lines 28 to 36: while the type is a pointer type, step to its element type,
  allocate if the current pointer is nil, and follow the pointer.
\<close>

function indirect :: "gtype \<Rightarrow> rvalue \<Rightarrow> store \<Rightarrow> fault + (gtype \<times> rvalue \<times> store)" where
  "indirect t val st =
     (if type_Kind t = KPtr then
        (case type_Elem t of
           Inl f \<Rightarrow> Inl f
         | Inr t' \<Rightarrow>
             (case rv_IsNil st val of
                Inl f \<Rightarrow> Inl f
              | Inr isnil \<Rightarrow>
                  (case (if isnil then (let (p, st1) = reflect_New t' st in rv_Set st1 val p)
                         else Inr st) of
                     Inl f \<Rightarrow> Inl f
                   | Inr st' \<Rightarrow>
                       (case rv_Elem st' val of
                          Inl f \<Rightarrow> Inl f
                        | Inr val' \<Rightarrow> indirect t' val' st'))))
      else Inr (t, val, st))"
  by pat_completeness auto

lemma type_Elem_smaller: "type_Elem t = Inr t' \<Longrightarrow> size t' < size t"
  by (cases t) (auto simp: type_Elem_def)

termination indirect
  by (relation "measure (\<lambda>(t, val, st). size t)") (auto dest: type_Elem_smaller)

declare indirect.simps [simp del]

text \<open>
  The lookup of lines 55 to 60: the keys are tried in order and the loop stops at the first
  one that the environment holds. The three variables \<open>s\<close>, \<open>tag\<close> and \<open>ok\<close> are assigned
  in every iteration.
\<close>

fun probe :: "env \<Rightarrow> string list \<Rightarrow> string \<times> string \<times> bool \<Rightarrow> string \<times> string \<times> bool" where
  "probe env [] (s, tag, ok) = (s, tag, ok)"
| "probe env (k # ks) (s, tag, ok) =
     (let (s', ok') = LookupEnv env k in
      if ok' then (s', k, ok') else probe env ks (s', k, ok'))"

definition nfields :: "gtype \<Rightarrow> nat" where
  "nfields t = (case t of TStruct n fs \<Rightarrow> length fs | _ \<Rightarrow> 0)"

text \<open>The loop over the fields of the new struct value, lines 44 to 70, from index \<open>i\<close> on.\<close>

function decodeFields ::
  "stdlib \<Rightarrow> env \<Rightarrow> gtype \<Rightarrow> rvalue \<Rightarrow> nat \<Rightarrow> store \<Rightarrow> fault + (error option \<times> store)" where
  "decodeFields lib env t newVal i st =
     (case rv_Elem st newVal of
        Inl f \<Rightarrow> Inl f
      | Inr ne \<Rightarrow>
          (case rv_NumField ne of
             Inl f \<Rightarrow> Inl f
           | Inr n \<Rightarrow>
               if i < n then
                 (case type_Field t i of
                    Inl f \<Rightarrow> Inl f
                  | Inr fTyp \<Rightarrow>
                      (let isUnexported = (PkgPath fTyp \<noteq> []) in
                       if isUnexported then decodeFields lib env t newVal (i + 1) st
                       else
                         (let fieldTags = getFieldTags fTyp;
                              (s, tag, ok) = probe env fieldTags ([], [], False)
                          in if length s = 0 then decodeFields lib env t newVal (i + 1) st
                             else
                               (case rv_Field ne i of
                                  Inl f \<Rightarrow> Inl f
                                | Inr fVal \<Rightarrow>
                                    (case rv_Addr fVal of
                                       Inl f \<Rightarrow> Inl f
                                     | Inr a \<Rightarrow>
                                         (case decodeValue lib s a st of
                                            Inl f \<Rightarrow> Inl f
                                          | Inr (Some e, st') \<Rightarrow>
                                              Inr (Some (newDecodeError
                                                (''unable to decode value in field '' @ [CHR 0x27] @ tag @ [CHR 0x27])
                                                tag (Some e)), st')
                                          | Inr (None, st') \<Rightarrow>
                                              decodeFields lib env t newVal (i + 1) st'))))))
               else Inr (None, st)))"
  by pat_completeness auto

lemma type_Field_less: "type_Field t i = Inr f \<Longrightarrow> i < nfields t"
  by (cases t) (auto simp: type_Field_def nfields_def split: if_splits)

termination decodeFields
  by (relation "measure (\<lambda>(lib, env, t, newVal, i, st). nfields t - i)")
    (auto dest: type_Field_less)

declare decodeFields.simps [simp del]

text \<open>
  \<open>Decode lib env v st\<close>: \<open>v\<close> is the \<^verbatim>\<open>interface{}\<close> argument, its dynamic type and value
  or \<open>None\<close> for the nil interface.
\<close>

definition Decode ::
  "stdlib \<Rightarrow> env \<Rightarrow> (gtype \<times> gval) option \<Rightarrow> store \<Rightarrow> fault + (error option \<times> store)" where
  "Decode lib env v st =
     (let val = reflect_ValueOf v; t = reflect_TypeOf v in
      if rv_Kind val \<noteq> KPtr
      then Inr (Some (newDecodeError ''must decode to pointer'' [] None), st)
      else
        (case t of
           None \<Rightarrow> Inl (Panic ''invalid memory address or nil pointer dereference'')
         | Some t \<Rightarrow>
             (case indirect t val st of
                Inl f \<Rightarrow> Inl f
              | Inr (t, val, st) \<Rightarrow>
                  if type_Kind t \<noteq> KStruct
                  then Inr (Some (newDecodeError
                         (''cannot decode into value of type: '' @ type_String lib t) [] None), st)
                  else
                    (let (newVal, st) = reflect_New t st in
                     case decodeFields lib env t newVal 0 st of
                       Inl f \<Rightarrow> Inl f
                     | Inr (Some e, st) \<Rightarrow> Inr (Some e, st)
                     | Inr (None, st) \<Rightarrow>
                         (case rv_Elem st newVal of
                            Inl f \<Rightarrow> Inl f
                          | Inr ne \<Rightarrow> ret_nil (rv_Set st val ne))))))"


section \<open>A table of the standard library\<close>

text \<open>
  The examples below apply the theorems to concrete inputs; for that the library parameters
  are tabulated at the inputs the examples use. Each entry is what the Go library returns:
  \<^verbatim>\<open>time.Parse\<close> accepts \<^verbatim>\<open>2023-01-15T10:00:00Z\<close> (wall 0, ext 63809373600 seconds
  since year 1, UTC as the nil location) and rejects \<^verbatim>\<open>1673776800\<close> at the first
  \<^verbatim>\<open>-\<close> of the layout and \<^verbatim>\<open>abc\<close> at the year; \<^verbatim>\<open>strconv.ParseFloat\<close> reads
  \<^verbatim>\<open>1673776800\<close> as the \<^verbatim>\<open>float64\<close> with the bit pattern 0x41D8F0F3A8000000, whose
  integer part is itself and whose fraction is 0; \<^verbatim>\<open>time.Unix\<close> adds the 62135596800
  seconds between year 1 and 1970 and sets the local location; \<^verbatim>\<open>json.Unmarshal\<close>
  rejects \<^verbatim>\<open>abc\<close> at its first byte, and reads the timestamp above between double
  quotes (a JSON string, which the two other parsers reject) into a \<^verbatim>\<open>time.Time\<close> as
  the same time. At an input outside the table an entry is a placeholder, and no example
  reads one.
\<close>

definition sample_lib :: stdlib where
  "sample_lib =
     \<lparr> ParseFloat = (\<lambda>s bitSize.
         if s = ''1673776800'' then (0x41D8F0F3A8000000, None)
         else (0, Some (NumError ''ParseFloat'' s ErrSyntax))),
       ParseComplex = (\<lambda>s bitSize. ((0, 0), Some (NumError ''ParseComplex'' s ErrSyntax))),
       float32_of = (\<lambda>x. 0),
       math_Modf = (\<lambda>x. (x, 0)),
       float64_mul = (\<lambda>x y. 0),
       int64_of = (\<lambda>x. if x = 0x41D8F0F3A8000000 then 1673776800 else 0),
       time_Parse = (\<lambda>layout s.
         if s = ''2023-01-15T10:00:00Z''
         then (VStruct [VUint64 0, VInt64 63809373600, VPtr None], None)
         else if s = ''1673776800''
         then (zero time_Time, Some (TimeParseError layout s ''-'' ''776800''))
         else (zero time_Time, Some (TimeParseError layout s ''2006'' s))),
       time_Unix = (\<lambda>sec nsec.
         VStruct [VUint64 nsec, VInt64 (sec + 62135596800), VPtr (Some (Ext ''time.localLoc''))]),
       json_Unmarshal = (\<lambda>s t cur.
         if s = [CHR 0x22] @ ''2023-01-15T10:00:00Z'' @ [CHR 0x22] \<and> t = time_Time
         then (VStruct [VUint64 0, VInt64 63809373600, VPtr None], None)
         else (cur, Some (JSONError (''invalid character '' @ [CHR 0x27] @ take 1 s @ [CHR 0x27]
                                       @ '' looking for beginning of value'')))),
       type_String = (\<lambda>t. kind_String (type_Kind t)) \<rparr>"

text \<open>Three struct types for the examples.\<close>

definition Config :: gtype where
  "Config = TStruct ''main.Config''
     [SField ''Host'' [] [(''mpe'', ''HOST'')] TString,
      SField ''port'' ''main'' [] TInt,
      SField ''Debug'' [] [] TBool]"

definition IntBox :: gtype where
  "IntBox = TStruct ''main.IntBox'' [SField ''X'' [] [(''mpe'', ''X'')] TInt]"

definition TwoKeys :: gtype where
  "TwoKeys = TStruct ''main.TwoKeys'' [SField ''X'' [] [(''mpe'', ''A,B'')] TInt]"

section \<open>Notions used in the statements\<close>

text \<open>
  The keys that the specification derives from a field's tags, in its own words: the
  entries of the decode-tag between commas, the empty ones dropped; and the first
  comma-delimited segment of the serialization tag.
\<close>

definition mpe_keys :: "sfield \<Rightarrow> string list" where
  "mpe_keys f = filter (\<lambda>k. k \<noteq> []) (Split (Tag_Get (Tag f) ''mpe'') CHR '','')"

definition json_key :: "sfield \<Rightarrow> string" where
  "json_key f = hd (Split (Tag_Get (Tag f) ''json'') CHR '','')"

text \<open>
  The number that a string of decimal digits denotes, and the outcome "the call returns nil
  and the store holds \<open>x\<close> at \<open>l\<close>".
\<close>

definition decimal :: "string \<Rightarrow> nat" where
  "decimal ds = foldl (\<lambda>n c. n * 10 + digit_val c) 0 ds"

definition written :: "store \<Rightarrow> loc \<Rightarrow> gval option \<Rightarrow> fault + (error option \<times> store)" where
  "written st l x =
     (case x of
        None \<Rightarrow> Inl Stuck
      | Some y \<Rightarrow> (case store_at st l y of None \<Rightarrow> Inl Stuck | Some st' \<Rightarrow> Inr (None, st')))"

text \<open>
  A field that the loop of \<open>Decode\<close> passes over: it is unexported, or its lookup ends with
  the empty string (no key found, or the key found holds the empty string).
\<close>

definition skipped :: "env \<Rightarrow> sfield \<Rightarrow> bool" where
  "skipped env f = (PkgPath f \<noteq> [] \<or> fst (probe env (getFieldTags f) ([], [], False)) = [])"

text \<open>
  Every pointer on the way from the argument to the value decoded into is set: the pointer
  loop of \<open>Decode\<close> finds no nil.
\<close>

function path_set :: "gtype \<Rightarrow> rvalue \<Rightarrow> store \<Rightarrow> bool" where
  "path_set t val st =
     (if type_Kind t = KPtr then
        (case type_Elem t of
           Inl f \<Rightarrow> False
         | Inr t' \<Rightarrow>
             rv_IsNil st val = Inr False \<and>
             (case rv_Elem st val of Inl f \<Rightarrow> False | Inr val' \<Rightarrow> path_set t' val' st))
      else True)"
  by pat_completeness auto

termination path_set
  by (relation "measure (\<lambda>(t, val, st). size t)") (auto dest: type_Elem_smaller)

declare path_set.simps [simp del]

text \<open>
  The fields of the struct type that a type leads to through its pointers, and two
  environments giving a field the same lookup: the same string, and the same key when the
  string is not empty.
\<close>

fun struct_fields :: "gtype \<Rightarrow> sfield list" where
  "struct_fields (TPtr t) = struct_fields t"
| "struct_fields (TStruct n fs) = fs"
| "struct_fields t = []"

definition same_lookup :: "env \<Rightarrow> env \<Rightarrow> sfield \<Rightarrow> bool" where
  "same_lookup env1 env2 f =
     (case (probe env1 (getFieldTags f) ([], [], False), probe env2 (getFieldTags f) ([], [], False)) of
        ((s1, tag1, ok1), (s2, tag2, ok2)) \<Rightarrow> s1 = s2 \<and> (s1 = [] \<or> tag1 = tag2))"

section \<open>Properties\<close>

subsection \<open>The errors of parseTime\<close>

text \<open>
  Claim C2 says that \<open>parseTime\<close>, when all three attempts fail, returns the error of the
  last attempt, the one of \<^verbatim>\<open>json.Unmarshal\<close>. At the input \<^verbatim>\<open>abc\<close> all three attempts
  fail and the error returned is not the one of \<^verbatim>\<open>json.Unmarshal\<close>.
\<close>

theorem parseTime_last_error_counterexample:
  "time_Parse sample_lib RFC3339Nano ''abc'' =
     (zero time_Time, Some (TimeParseError RFC3339Nano ''abc'' ''2006'' ''abc'')) \<and>
   ParseFloat sample_lib ''abc'' 64 = (0, Some (NumError ''ParseFloat'' ''abc'' ErrSyntax)) \<and>
   json_Unmarshal sample_lib ''abc'' time_Time (zero time_Time) =
     (zero time_Time,
      Some (JSONError (''invalid character '' @ [CHR 0x27] @ ''a'' @ [CHR 0x27]
                         @ '' looking for beginning of value''))) \<and>
   snd (parseTime sample_lib ''abc'') \<noteq>
     snd (json_Unmarshal sample_lib ''abc'' time_Time (zero time_Time))"
  by (simp add: parseTime_def sample_lib_def)

text \<open>
  Claim C2, amended: when all three attempts fail, \<open>parseTime\<close> returns the zero
  \<^verbatim>\<open>time.Time\<close> and the error of the first attempt, the one of \<^verbatim>\<open>time.Parse\<close>.
\<close>

theorem parseTime_error_is_first:
  assumes "time_Parse lib RFC3339Nano s = (t, Some e1)"
    and "ParseFloat lib s 64 = (f, Some e2)"
    and "json_Unmarshal lib s time_Time t = (t', Some e3)"
  shows "parseTime lib s = (zero time_Time, Some e1)"
  using assms by (simp add: parseTime_def)

theorem parseTime_error_is_first_witness:
  "parseTime sample_lib ''abc'' =
     (zero time_Time, Some (TimeParseError RFC3339Nano ''abc'' ''2006'' ''abc''))"
  by (rule parseTime_error_is_first[where f = 0 and t' = "zero time_Time"])
    (simp_all add: sample_lib_def)

subsection \<open>The order of the attempts of parseTime\<close>



subsection \<open>Kinds that decodeValue does not convert\<close>

text \<open>
  Claim C8: \<open>decodeValue\<close> on a target of kind \<^verbatim>\<open>chan\<close> or \<^verbatim>\<open>func\<close> returns nil and
  leaves the store as it was; on a target of a kind outside the set string, bool, the
  integers, the unsigned integers, the floats, the complex numbers, map, struct, array,
  slice, pointer, chan and func it returns the error \<^verbatim>\<open>unsupported field kind: \<close>
  followed by the name of the kind, and leaves the store as it was.
\<close>

theorem decodeValue_kinds_outside:
  "(rv_Elem st v = Inr e \<and> rv_Kind e \<in> {KChan, KFunc} \<longrightarrow>
      decodeValue lib s v st = Inr (None, st)) \<and>
   (rv_Elem st v = Inr e \<and>
    rv_Kind e \<notin> {KString, KBool, KInt, KInt8, KInt16, KInt32, KInt64,
                  KUint, KUint8, KUint16, KUint32, KUint64, KUintptr,
                  KFloat32, KFloat64, KComplex64, KComplex128,
                  KMap, KStruct, KArray, KSlice, KPtr, KChan, KFunc} \<longrightarrow>
      decodeValue lib s v st =
        Inr (Some (ErrorString (''unsupported field kind: '' @ kind_String (rv_Kind e))), st))"
  by (auto simp: decodeValue.simps[of lib s v st])

theorem decodeValue_kinds_outside_witness:
  "decodeValue sample_lib ''x'' (RTmp (TPtr (TChan TInt)) (VPtr (Some (Loc 0 [])))) [VChan (Some 7)] =
     Inr (None, [VChan (Some 7)]) \<and>
   decodeValue sample_lib ''x'' (RTmp (TPtr TFunc) (VPtr (Some (Loc 0 [])))) [VFunc None] =
     Inr (None, [VFunc None]) \<and>
   decodeValue sample_lib ''x'' (RTmp (TPtr TInterface) (VPtr (Some (Loc 0 [])))) [VInterface None] =
     Inr (Some (ErrorString ''unsupported field kind: interface''), [VInterface None]) \<and>
   decodeValue sample_lib ''x'' (RTmp (TPtr TUnsafePointer) (VPtr (Some (Loc 0 []))))
       [VUnsafePointer None] =
     Inr (Some (ErrorString ''unsupported field kind: unsafe.Pointer''), [VUnsafePointer None])"
  using
    decodeValue_kinds_outside[of "[VChan (Some 7)]" "RTmp (TPtr (TChan TInt)) (VPtr (Some (Loc 0 [])))"
      "RVar (TChan TInt) (Loc 0 [])" sample_lib "''x''"]
    decodeValue_kinds_outside[of "[VFunc None]" "RTmp (TPtr TFunc) (VPtr (Some (Loc 0 [])))"
      "RVar TFunc (Loc 0 [])" sample_lib "''x''"]
    decodeValue_kinds_outside[of "[VInterface None]" "RTmp (TPtr TInterface) (VPtr (Some (Loc 0 [])))"
      "RVar TInterface (Loc 0 [])" sample_lib "''x''"]
    decodeValue_kinds_outside[of "[VUnsafePointer None]"
      "RTmp (TPtr TUnsafePointer) (VPtr (Some (Loc 0 [])))"
      "RVar TUnsafePointer (Loc 0 [])" sample_lib "''x''"]
  by (simp add: rv_Elem_def)

subsection \<open>A nil pointer as the argument\<close>

text \<open>
  Claim C9: when the argument of \<open>Decode\<close> is itself a nil pointer, whatever its element
  type, \<open>Decode\<close> does not return the error \<^verbatim>\<open>must decode to pointer\<close> nor any other
  error: the loop over the pointer types finds the outermost pointer nil and sets it to a
  new value, and \<^verbatim>\<open>Value.Set\<close> panics because the Value made from the argument is not
  addressable.
\<close>

theorem Decode_nil_pointer_panics:
  "Decode lib env (Some (TPtr t, VPtr None)) st =
     Inl (Panic ''reflect: reflect.Value.Set using unaddressable value'')"
  by (simp add: Decode_def indirect.simps[of "TPtr t"] type_Elem_def rv_IsNil_def nil_of_def
      reflect_New_def rv_Set_def unaddressable_def)


subsection \<open>The keys of a field\<close>

lemma foldl_append_nonempty:
  "foldl (\<lambda>res s. if s \<noteq> [] then res @ [s] else res) acc xs = acc @ filter (\<lambda>s. s \<noteq> []) xs"
  by (induction xs arbitrary: acc) auto

lemma Split_not_Nil: "Split s c \<noteq> []"
  by (induction s) (auto split: list.splits)

lemma getFieldTags_eq:
  "getFieldTags f =
     (if mpe_keys f \<noteq> [] then mpe_keys f
      else if json_key f \<noteq> [] then [json_key f]
      else [Name f])"
  using Split_not_Nil[of "Tag_Get (Tag f) ''json''" "CHR '',''"]
  by (cases "Split (Tag_Get (Tag f) ''json'') CHR '',''")
   (auto simp: getFieldTags_def mpe_keys_def json_key_def mapEnvTagName_def Let_def
      foldl_append_nonempty)

lemma Split_no_sep: "sep \<notin> set s \<Longrightarrow> Split s sep = [s]"
  by (induction s) auto

text \<open>
  Claim C5: the keys of a field are those of its decode-tag when it has any (the
  serialization tag and the name are then not used); otherwise the first segment of its
  serialization tag when that is not empty; otherwise its name. A field with the decode-tag
  \<open>A\<close> (one key), whatever its serialization tag, is looked up under \<open>A\<close> and gets
  the value of \<open>A\<close> when the environment holds it.
\<close>

theorem getFieldTags_priority:
  "(mpe_keys f \<noteq> [] \<longrightarrow> getFieldTags f = mpe_keys f) \<and>
   (mpe_keys f = [] \<and> json_key f \<noteq> [] \<longrightarrow> getFieldTags f = [json_key f]) \<and>
   (mpe_keys f = [] \<and> json_key f = [] \<longrightarrow> getFieldTags f = [Name f]) \<and>
   (Tag_Get (Tag f) ''mpe'' = A \<and> A \<noteq> [] \<and> CHR '','' \<notin> set A \<and> env A = Some a \<longrightarrow>
      probe env (getFieldTags f) ([], [], False) = (a, A, True))"
  by (auto simp: getFieldTags_eq mpe_keys_def Split_no_sep LookupEnv_def)

theorem getFieldTags_priority_witness:
  "getFieldTags (SField ''X'' [] [(''mpe'', ''A''), (''json'', ''B'')] TString) = [''A''] \<and>
   getFieldTags (SField ''X'' [] [(''json'', ''B,omitempty'')] TString) = [''B''] \<and>
   getFieldTags (SField ''X'' [] [] TString) = [''X''] \<and>
   probe [''A'' \<mapsto> ''1'', ''B'' \<mapsto> ''2'']
     (getFieldTags (SField ''X'' [] [(''mpe'', ''A''), (''json'', ''B'')] TString)) ([], [], False) =
     (''1'', ''A'', True) \<and>
   Decode sample_lib [''A'' \<mapsto> ''1'', ''B'' \<mapsto> ''2'']
     (Some (TPtr (TStruct ''T'' [SField ''X'' [] [(''mpe'', ''A''), (''json'', ''B'')] TString]),
            VPtr (Some (Loc 0 []))))
     [VStruct [VString ''old'']] =
     Inr (None, [VStruct [VString ''1''], VStruct [VString ''1'']])"
proof -
  have a: "getFieldTags (SField ''X'' [] [(''mpe'', ''A''), (''json'', ''B'')] TString) = [''A'']"
    using getFieldTags_priority[of "SField ''X'' [] [(''mpe'', ''A''), (''json'', ''B'')] TString"]
    by (simp add: mpe_keys_def)
  have b: "getFieldTags (SField ''X'' [] [(''json'', ''B,omitempty'')] TString) = [''B'']"
    using getFieldTags_priority[of "SField ''X'' [] [(''json'', ''B,omitempty'')] TString"]
    by (simp add: mpe_keys_def json_key_def)
  have c: "getFieldTags (SField ''X'' [] [] TString) = [''X'']"
    using getFieldTags_priority[of "SField ''X'' [] [] TString"]
    by (simp add: mpe_keys_def json_key_def)
  have d: "probe [''A'' \<mapsto> ''1'', ''B'' \<mapsto> ''2'']
     (getFieldTags (SField ''X'' [] [(''mpe'', ''A''), (''json'', ''B'')] TString)) ([], [], False) =
     (''1'', ''A'', True)"
    using getFieldTags_priority[of "SField ''X'' [] [(''mpe'', ''A''), (''json'', ''B'')] TString"
        "''A''" "[''A'' \<mapsto> ''1'', ''B'' \<mapsto> ''2'']" "''1''"]
    by simp
  have e: "Decode sample_lib [''A'' \<mapsto> ''1'', ''B'' \<mapsto> ''2'']
     (Some (TPtr (TStruct ''T'' [SField ''X'' [] [(''mpe'', ''A''), (''json'', ''B'')] TString]),
            VPtr (Some (Loc 0 []))))
     [VStruct [VString ''old'']] =
     Inr (None, [VStruct [VString ''1''], VStruct [VString ''1'']])"
    by code_simp
  from a b c d e show ?thesis by blast
qed

subsection \<open>The order of the lookup\<close>






subsection \<open>The range of an integer field\<close>

lemma is_digit_val: "is_digit c \<Longrightarrow> digit_val c \<le> 9"
  by (auto simp: is_digit_def digit_val_def)

lemma foldl_digits_ge: "m \<le> foldl (\<lambda>n c. n * 10 + digit_val c) m cs"
proof (induction cs arbitrary: m)
  case Nil
  show ?case by simp
next
  case (Cons c cs)
  have "m \<le> m * 10 + digit_val c" by simp
  also have "\<dots> \<le> foldl (\<lambda>n c. n * 10 + digit_val c) (m * 10 + digit_val c) cs" by (rule Cons.IH)
  finally show ?case by simp
qed

lemma maxVal_64: "maxVal 64 = - 1"
  by (simp add: maxVal_def)

lemma not_gt_maxVal_64: "\<not> (x :: 64 word) > maxVal 64"
  by (simp add: maxVal_64 not_less)

lemma step_no_overflow:
  fixes n :: "64 word"
  assumes "unat n * 10 + d < 2 ^ 64"
  shows "unat (n * 10 + of_nat d) = unat n * 10 + d" and "\<not> n \<ge> cutoff10"
    and "\<not> n * 10 + of_nat d < n * 10"
proof -
  have a: "unat (n * 10) = unat n * 10"
    using assms by (simp add: unat_word_ariths)
  have d: "d < 2 ^ 64" using assms by simp
  then have b: "unat (of_nat d :: 64 word) = d"
    by (simp add: unat_of_nat)
  show c: "unat (n * 10 + of_nat d) = unat n * 10 + d"
    using assms a b by (simp add: unat_word_ariths)
  show "\<not> n \<ge> cutoff10"
    using assms by (simp add: cutoff10_def word_le_nat_alt)
  show "\<not> n * 10 + of_nat d < n * 10"
    using a c by (simp add: word_less_nat_alt)
qed

lemma step_overflow:
  fixes n :: "64 word"
  assumes "\<not> n \<ge> cutoff10" "unat n * 10 + d \<ge> 2 ^ 64" "d \<le> 9"
  shows "n * 10 + of_nat d < n * 10"
proof -
  have n: "unat n < 1844674407370955162"
    using assms(1) by (simp add: cutoff10_def word_le_nat_alt)
  then have a: "unat (n * 10) = unat n * 10"
    by (simp add: unat_word_ariths)
  have b: "unat (of_nat d :: 64 word) = d"
    using assms(3) by (simp add: unat_of_nat)
  have "unat (n * 10 + of_nat d) = (unat n * 10 + d) mod 2 ^ 64"
    using a b by (simp add: unat_word_ariths)
  also have "\<dots> = unat n * 10 + d - 2 ^ 64"
    using assms(2,3) n by (simp add: mod_if)
  also have "\<dots> < unat n * 10"
    using assms(2,3) n by simp
  finally show ?thesis using a by (simp add: word_less_nat_alt)
qed

lemma ParseUint_loop_digits:
  assumes "\<forall>c\<in>set cs. is_digit c"
  shows "ParseUint_loop 64 s0 cs n =
     (let m = foldl (\<lambda>n c. n * 10 + digit_val c) (unat n) cs in
      if m < 2 ^ 64 then (of_nat m, None)
      else (maxVal 64, Some (NumError ''ParseUint'' s0 ErrRange)))"
  using assms
proof (induction cs arbitrary: n)
  case Nil
  show ?case using unsigned_less[of n, where ?'a = nat] by (simp add: Let_def)
next
  case (Cons c cs)
  let ?d = "digit_val c"
  let ?m = "unat n * 10 + ?d"
  have dig: "is_digit c" and rest: "\<forall>c\<in>set cs. is_digit c" using Cons.prems by auto
  have d9: "?d \<le> 9" using dig by (rule is_digit_val)
  show ?case
  proof (cases "?m < 2 ^ 64")
    case True
    note st = step_no_overflow[OF True]
    have "ParseUint_loop 64 s0 (c # cs) n = ParseUint_loop 64 s0 cs (n * 10 + of_nat ?d)"
      using dig st by (simp add: Let_def not_gt_maxVal_64)
    then show ?thesis using Cons.IH[OF rest, of "n * 10 + of_nat ?d"] st(1) by simp
  next
    case False
    have big: "\<not> foldl (\<lambda>n c. n * 10 + digit_val c) ?m cs < 2 ^ 64"
      using foldl_digits_ge[of ?m cs] False by simp
    have "ParseUint_loop 64 s0 (c # cs) n = (maxVal 64, Some (NumError ''ParseUint'' s0 ErrRange))"
    proof (cases "n \<ge> cutoff10")
      case True
      then show ?thesis using dig by simp
    next
      case ncut: False
      have "n * 10 + of_nat ?d < n * 10"
        using step_overflow[OF ncut _ d9] False by simp
      then show ?thesis using dig ncut by (simp add: Let_def)
    qed
    then show ?thesis using big by (simp add: Let_def)
  qed
qed

lemma ParseUint_digits:
  assumes "ds \<noteq> []" "\<forall>c\<in>set ds. is_digit c"
  shows "ParseUint ds 64 =
     (if decimal ds < 2 ^ 64 then (of_nat (decimal ds), None)
      else (maxVal 64, Some (NumError ''ParseUint'' ds ErrRange)))"
  using assms by (simp add: ParseUint_def ParseUint_loop_digits decimal_def Let_def)

lemma digit_not_sign: "is_digit c \<Longrightarrow> c \<noteq> CHR ''+'' \<and> c \<noteq> CHR ''-''"
  by (auto simp: is_digit_def)

lemma unat_max_64: "unat (- 1 :: 64 word) = 18446744073709551615"
  by (simp add: unsigned_minus_1_eq_mask mask_eq_exp_minus_1)

lemma ParseInt_digits:
  assumes "ds \<noteq> []" "\<forall>c\<in>set ds. is_digit c"
  shows "ParseInt ds 64 =
     (if decimal ds < 2 ^ 63 then (of_nat (decimal ds), None)
      else (2 ^ 63 - 1, Some (NumError ''ParseInt'' ds ErrRange)))"
proof -
  have hd: "hd ds \<noteq> CHR ''+''" "hd ds \<noteq> CHR ''-''"
    using assms digit_not_sign[of "hd ds"] by (cases ds; simp)+
  show ?thesis
  proof (cases "decimal ds < 2 ^ 64")
    case True
    then have u: "unat (of_nat (decimal ds) :: 64 word) = decimal ds"
      by (simp add: unat_of_nat)
    show ?thesis
      using assms hd True u
      by (simp add: ParseInt_def ParseUint_digits Let_def word_le_nat_alt)
  next
    case False
    then show ?thesis
      using assms hd
      by (simp add: ParseInt_def ParseUint_digits Let_def maxVal_64 word_le_nat_alt unat_max_64)
  qed
qed

lemma ParseInt_neg_digits:
  assumes "ds \<noteq> []" "\<forall>c\<in>set ds. is_digit c"
  shows "ParseInt (CHR ''-'' # ds) 64 =
     (if decimal ds \<le> 2 ^ 63 then (- of_nat (decimal ds), None)
      else (- (2 ^ 63), Some (NumError ''ParseInt'' (CHR ''-'' # ds) ErrRange)))"
proof (cases "decimal ds < 2 ^ 64")
  case True
  then have u: "unat (of_nat (decimal ds) :: 64 word) = decimal ds"
    by (simp add: unat_of_nat)
  show ?thesis
    using assms True u
    by (auto simp: ParseInt_def ParseUint_digits Let_def word_less_nat_alt)
next
  case False
  then show ?thesis
    using assms
    by (simp add: ParseInt_def ParseUint_digits Let_def maxVal_64 word_less_nat_alt unat_max_64)
qed

lemma decodeValue_int:
  assumes "type_Kind t \<in> {KInt, KInt8, KInt16, KInt32, KInt64}"
  shows "decodeValue lib s (RTmp (TPtr t) (VPtr (Some l))) st =
     (case ParseInt s 64 of
        (i, None) \<Rightarrow> written st l (int_val (type_Kind t) i)
      | (i, Some e) \<Rightarrow> Inr (Some e, st))"
  using assms
  by (subst decodeValue.simps)
    (auto simp: rv_Elem_def rv_SetInt_def rv_SetKind_def ret_nil_def written_def int_val_def
      split: prod.splits option.splits)

lemma decodeValue_uint:
  assumes "type_Kind t \<in> {KUint, KUint8, KUint16, KUint32, KUint64, KUintptr}"
  shows "decodeValue lib s (RTmp (TPtr t) (VPtr (Some l))) st =
     (case ParseUint s 64 of
        (i, None) \<Rightarrow> written st l (uint_val (type_Kind t) i)
      | (i, Some e) \<Rightarrow> Inr (Some e, st))"
  using assms
  by (subst decodeValue.simps)
    (auto simp: rv_Elem_def rv_SetUint_def rv_SetKind_def ret_nil_def written_def uint_val_def
      split: prod.splits option.splits)

text \<open>
  Claim C3 says that a base-10 string whose value does not fit the bit width of the field,
  such as \<^verbatim>\<open>300\<close> for an \<^verbatim>\<open>int8\<close>, makes the conversion fail with a range error.
  \<open>decodeValue\<close> returns nil for it, and the field holds 44.
\<close>

theorem decodeValue_width_counterexample:
  "decodeValue sample_lib ''300'' (RTmp (TPtr TInt8) (VPtr (Some (Loc 0 [])))) [VInt8 0] =
     Inr (None, [VInt8 44]) \<and>
   Decode sample_lib [''X'' \<mapsto> ''300'']
     (Some (TPtr (TStruct ''T'' [SField ''X'' [] [(''mpe'', ''X'')] TInt8]), VPtr (Some (Loc 0 []))))
     [VStruct [VInt8 0]] =
     Inr (None, [VStruct [VInt8 44], VStruct [VInt8 44]])"
  by code_simp

text \<open>
  Claim C3, amended: the range is checked at 64 bits, whatever the width of the field. For a
  non-empty string of decimal digits of value \<open>n\<close>, a signed field gets \<open>n\<close> when
  \<open>n < 2^63\<close>, and the string with a minus sign in front gives \<open>-n\<close> when
  \<open>n \<le> 2^63\<close>; an unsigned field gets \<open>n\<close> when \<open>n < 2^64\<close>; beyond that the call
  returns the range error of \<^verbatim>\<open>strconv\<close> and writes nothing. What is written is the number
  converted to the type of the field, which keeps its low bits: no error reports a value
  that fits 64 bits and not the field.
\<close>

theorem decodeValue_integer_range:
  assumes "ds \<noteq> []" and "\<forall>c\<in>set ds. is_digit c"
  shows
    "(type_Kind t \<in> {KInt, KInt8, KInt16, KInt32, KInt64} \<longrightarrow>
        decodeValue lib ds (RTmp (TPtr t) (VPtr (Some l))) st =
          (if decimal ds < 2 ^ 63
           then written st l (int_val (type_Kind t) (of_nat (decimal ds)))
           else Inr (Some (NumError ''ParseInt'' ds ErrRange), st)) \<and>
        decodeValue lib (CHR ''-'' # ds) (RTmp (TPtr t) (VPtr (Some l))) st =
          (if decimal ds \<le> 2 ^ 63
           then written st l (int_val (type_Kind t) (- of_nat (decimal ds)))
           else Inr (Some (NumError ''ParseInt'' (CHR ''-'' # ds) ErrRange), st))) \<and>
     (type_Kind t \<in> {KUint, KUint8, KUint16, KUint32, KUint64, KUintptr} \<longrightarrow>
        decodeValue lib ds (RTmp (TPtr t) (VPtr (Some l))) st =
          (if decimal ds < 2 ^ 64
           then written st l (uint_val (type_Kind t) (of_nat (decimal ds)))
           else Inr (Some (NumError ''ParseUint'' ds ErrRange), st)))"
  using assms
  by (simp add: decodeValue_int decodeValue_uint ParseInt_digits ParseInt_neg_digits ParseUint_digits)

theorem decodeValue_integer_range_witness:
  "decodeValue sample_lib ''300'' (RTmp (TPtr TInt8) (VPtr (Some (Loc 0 [])))) [VInt8 0] =
     Inr (None, [VInt8 44]) \<and>
   decodeValue sample_lib ''-129'' (RTmp (TPtr TInt8) (VPtr (Some (Loc 0 [])))) [VInt8 0] =
     Inr (None, [VInt8 127]) \<and>
   decodeValue sample_lib ''9223372036854775808'' (RTmp (TPtr TInt8) (VPtr (Some (Loc 0 [])))) [VInt8 0] =
     Inr (Some (NumError ''ParseInt'' ''9223372036854775808'' ErrRange), [VInt8 0]) \<and>
   decodeValue sample_lib ''256'' (RTmp (TPtr TUint8) (VPtr (Some (Loc 0 [])))) [VUint8 7] =
     Inr (None, [VUint8 0])"
proof -
  have d: "decimal ''300'' = 300" "decimal ''129'' = 129"
    "decimal ''9223372036854775808'' = 9223372036854775808" "decimal ''256'' = 256"
    by (simp_all add: decimal_def digit_val_def)
  have a: "decodeValue sample_lib ''300'' (RTmp (TPtr TInt8) (VPtr (Some (Loc 0 [])))) [VInt8 0] =
     Inr (None, [VInt8 44])"
    using decodeValue_integer_range[of "''300''" TInt8 sample_lib "Loc 0 []" "[VInt8 0]"]
    by (simp add: d is_digit_def written_def int_val_def)
  have b: "decodeValue sample_lib ''-129'' (RTmp (TPtr TInt8) (VPtr (Some (Loc 0 [])))) [VInt8 0] =
     Inr (None, [VInt8 127])"
    using decodeValue_integer_range[of "''129''" TInt8 sample_lib "Loc 0 []" "[VInt8 0]"]
    by (simp add: d is_digit_def written_def int_val_def)
  have c: "decodeValue sample_lib ''9223372036854775808'' (RTmp (TPtr TInt8) (VPtr (Some (Loc 0 [])))) [VInt8 0] =
     Inr (Some (NumError ''ParseInt'' ''9223372036854775808'' ErrRange), [VInt8 0])"
    using decodeValue_integer_range[of "''9223372036854775808''" TInt8 sample_lib "Loc 0 []" "[VInt8 0]"]
    by (simp add: d is_digit_def)
  have e: "decodeValue sample_lib ''256'' (RTmp (TPtr TUint8) (VPtr (Some (Loc 0 [])))) [VUint8 7] =
     Inr (None, [VUint8 0])"
    using decodeValue_integer_range[of "''256''" TUint8 sample_lib "Loc 0 []" "[VUint8 7]"]
    by (simp add: d is_digit_def written_def uint_val_def)
  from a b c e show ?thesis by blast
qed



subsection \<open>decodeValue, kind by kind\<close>

lemma rv_Elem_ptr: "rv_Elem st (RTmp (TPtr ft) (VPtr (Some l))) = Inr (RVar ft l)"
  by (simp add: rv_Elem_def)

lemma decodeValue_nil:
  "rv_Elem st v = Inr RZero \<Longrightarrow>
     decodeValue lib s v st = Inr (Some (ErrorString ''unsupported field kind: invalid''), st)"
  by (subst decodeValue.simps) simp

lemma dv_string:
  "type_Kind ft = KString \<Longrightarrow>
     decodeValue lib s (RTmp (TPtr ft) (VPtr (Some l))) st = written st l (Some (VString s))"
  by (subst decodeValue.simps)
    (simp add: rv_Elem_ptr rv_SetString_def ret_nil_def written_def split: option.splits)

lemma dv_bool:
  "type_Kind ft = KBool \<Longrightarrow>
     decodeValue lib s (RTmp (TPtr ft) (VPtr (Some l))) st =
       (case ParseBool s of
          (b, None) \<Rightarrow> written st l (Some (VBool b))
        | (b, Some e) \<Rightarrow> Inr (Some e, st))"
  by (subst decodeValue.simps)
    (simp add: rv_Elem_ptr rv_SetBool_def ret_nil_def written_def split: option.splits prod.splits)

lemma dv_float:
  "type_Kind ft \<in> {KFloat32, KFloat64} \<Longrightarrow>
     decodeValue lib s (RTmp (TPtr ft) (VPtr (Some l))) st =
       (case ParseFloat lib s 64 of
          (f, None) \<Rightarrow> written st l (float_val (float32_of lib) (type_Kind ft) f)
        | (f, Some e) \<Rightarrow> Inr (Some e, st))"
  by (subst decodeValue.simps)
    (auto simp: rv_Elem_ptr rv_SetFloat_def rv_SetKind_def ret_nil_def written_def float_val_def
      split: option.splits prod.splits)

lemma dv_complex:
  "type_Kind ft \<in> {KComplex64, KComplex128} \<Longrightarrow>
     decodeValue lib s (RTmp (TPtr ft) (VPtr (Some l))) st =
       (case ParseComplex lib s 128 of
          (f, None) \<Rightarrow> written st l (complex_val (float32_of lib) (type_Kind ft) f)
        | (f, Some e) \<Rightarrow> Inr (Some e, st))"
  by (subst decodeValue.simps)
    (auto simp: rv_Elem_ptr rv_SetComplex_def rv_SetKind_def ret_nil_def written_def complex_val_def
      split: option.splits prod.splits)

lemma dv_composite:
  "type_Kind ft \<in> {KMap, KStruct, KArray, KSlice} \<Longrightarrow>
     decodeValue lib s (RTmp (TPtr ft) (VPtr (Some l))) st =
       (if ft = time_Time then
          (case parseTime lib s of
             (t, None) \<Rightarrow> written st l (Some t)
           | (t, Some e) \<Rightarrow> Inr (Some e, st))
        else
          (case load st l of
             None \<Rightarrow> Inl Stuck
           | Some cur \<Rightarrow>
               (case store_at st l (fst (json_Unmarshal lib s ft cur)) of
                  None \<Rightarrow> Inl Stuck
                | Some st' \<Rightarrow> Inr (snd (json_Unmarshal lib s ft cur), st'))))"
  by (subst decodeValue.simps)
    (auto simp: rv_Elem_ptr rv_Set_def unmarshal_into_def ret_nil_def written_def
      split: option.splits prod.splits)

lemma dv_ptr:
  "decodeValue lib s (RTmp (TPtr (TPtr t')) (VPtr (Some l))) st =
     decodeValue lib s (RVar (TPtr t') l) st"
  by (subst decodeValue.simps) (simp add: rv_Elem_ptr rv_IsNil_def nil_of_def)

lemma dv_chan_func:
  "type_Kind ft \<in> {KChan, KFunc} \<Longrightarrow>
     decodeValue lib s (RTmp (TPtr ft) (VPtr (Some l))) st = Inr (None, st)"
  by (subst decodeValue.simps) (auto simp: rv_Elem_ptr)

lemma dv_other:
  "type_Kind ft \<in> {KInterface, KUnsafePointer} \<Longrightarrow>
     decodeValue lib s (RTmp (TPtr ft) (VPtr (Some l))) st =
       Inr (Some (ErrorString (''unsupported field kind: '' @ kind_String (type_Kind ft))), st)"
  by (subst decodeValue.simps) (auto simp: rv_Elem_ptr)

subsection \<open>The new struct value\<close>

lemma store_at_field:
  "i < length vs \<Longrightarrow>
     store_at (pre @ [VStruct vs]) (Loc (length pre) [i]) y = Some (pre @ [VStruct (vs[i := y])])"
  by simp

lemma load_field:
  "i < length vs \<Longrightarrow> load (pre @ [VStruct vs]) (Loc (length pre) [i]) = Some (vs ! i)"
  by simp

lemma written_field:
  "i < length vs \<Longrightarrow>
     written (pre @ [VStruct vs]) (Loc (length pre) [i]) x =
       (case x of None \<Rightarrow> Inl Stuck | Some y \<Rightarrow> Inr (None, pre @ [VStruct (vs[i := y])]))"
  by (simp add: written_def split: option.splits)

lemma kind_classes:
  obtains "k = KString" | "k = KBool" | "k \<in> {KInt, KInt8, KInt16, KInt32, KInt64}"
  | "k \<in> {KUint, KUint8, KUint16, KUint32, KUint64, KUintptr}"
  | "k \<in> {KFloat32, KFloat64}" | "k \<in> {KComplex64, KComplex128}"
  | "k \<in> {KMap, KStruct, KArray, KSlice}" | "k = KPtr" | "k \<in> {KChan, KFunc}"
  | "k \<in> {KInterface, KUnsafePointer}" | "k = KInvalid"
  by (cases k) auto

lemma type_Kind_not_Invalid: "type_Kind t \<noteq> KInvalid"
  by (cases t) auto

lemma decodeValue_field:
  assumes i: "i < length vs" and z: "vs ! i = zero ft"
    and dv: "decodeValue lib s (RTmp (TPtr ft) (VPtr (Some (Loc (length pre) [i])))) (pre @ [VStruct vs])
               = Inr (r, st')"
  shows "\<exists>x. st' = pre @ [VStruct (vs[i := x])]"
proof -
  have "st' = pre @ [VStruct vs] \<or> (\<exists>x. st' = pre @ [VStruct (vs[i := x])])"
  proof -
  let ?st = "pre @ [VStruct vs]"
  let ?l = "Loc (length pre) [i]"
  note w = written_field[OF i, of pre]
  note ld = load_field[OF i, of pre]
  note sa = store_at_field[OF i, of pre]
  show ?thesis
  proof (cases "type_Kind ft" rule: kind_classes)
    case 1
    then show ?thesis using dv by (auto simp: dv_string w simp del: load.simps store_at.simps)
  next
    case 2
    then show ?thesis using dv
      by (auto simp: dv_bool w simp del: load.simps store_at.simps split: prod.splits option.splits)
  next
    case 3
    then show ?thesis using dv
      by (auto simp: decodeValue_int w simp del: load.simps store_at.simps split: prod.splits option.splits)
  next
    case 4
    then show ?thesis using dv
      by (auto simp: decodeValue_uint w simp del: load.simps store_at.simps split: prod.splits option.splits)
  next
    case 5
    then show ?thesis using dv
      by (auto simp: dv_float w simp del: load.simps store_at.simps split: prod.splits option.splits)
  next
    case 6
    then show ?thesis using dv
      by (auto simp: dv_complex w simp del: load.simps store_at.simps split: prod.splits option.splits)
  next
    case 7
    then show ?thesis using dv
      by (auto simp: dv_composite w ld sa simp del: load.simps store_at.simps
          split: prod.splits option.splits if_splits)
  next
    case 8
    then obtain t' where ft: "ft = TPtr t'" by (cases ft) auto
    have nil: "rv_Elem ?st (RVar (TPtr t') ?l) = Inr RZero"
      using z ld ft by (simp add: rv_Elem_def del: load.simps)
    have "st' = ?st" using dv decodeValue_nil[OF nil] by (simp add: ft dv_ptr)
    then show ?thesis by blast
  next
    case 9
    then show ?thesis using dv by (auto simp: dv_chan_func)
  next
    case 10
    then show ?thesis using dv by (auto simp: dv_other)
  next
    case 11
    then show ?thesis by (simp add: type_Kind_not_Invalid)
  qed
  qed
  then show ?thesis
  proof
    assume "st' = pre @ [VStruct vs]"
    then have "st' = pre @ [VStruct (vs[i := vs ! i])]" by simp
    then show ?thesis by blast
  qed blast
qed

lemma decodeFields_step:
  "decodeFields lib env (TStruct n fs) (RTmp (TPtr (TStruct n fs)) (VPtr (Some (Loc a [])))) i st =
     (if i < length fs then
        (if PkgPath (fs ! i) \<noteq> []
         then decodeFields lib env (TStruct n fs) (RTmp (TPtr (TStruct n fs)) (VPtr (Some (Loc a [])))) (i + 1) st
         else
           (case probe env (getFieldTags (fs ! i)) ([], [], False) of
              (s, tag, ok) \<Rightarrow>
                if s = []
                then decodeFields lib env (TStruct n fs) (RTmp (TPtr (TStruct n fs)) (VPtr (Some (Loc a [])))) (i + 1) st
                else
                  (case decodeValue lib s (RTmp (TPtr (Type (fs ! i))) (VPtr (Some (Loc a [i])))) st of
                     Inl f \<Rightarrow> Inl f
                   | Inr (Some e, st') \<Rightarrow>
                       Inr (Some (newDecodeError
                         (''unable to decode value in field '' @ [CHR 0x27] @ tag @ [CHR 0x27])
                         tag (Some e)), st')
                   | Inr (None, st') \<Rightarrow>
                       decodeFields lib env (TStruct n fs)
                         (RTmp (TPtr (TStruct n fs)) (VPtr (Some (Loc a [])))) (i + 1) st')))
      else Inr (None, st))"
  by (subst decodeFields.simps)
    (simp add: rv_Elem_ptr rv_NumField_def type_Field_def rv_Field_def Let_def split: prod.splits)

lemma decodeFields_fresh:
  assumes "length vs = length fs"
    and "\<forall>j. i \<le> j \<and> j < length fs \<longrightarrow> vs ! j = zero (Type (fs ! j))"
    and "decodeFields lib env (TStruct n fs)
           (RTmp (TPtr (TStruct n fs)) (VPtr (Some (Loc (length pre) [])))) i (pre @ [VStruct vs])
         = Inr (r, st')"
  shows "\<exists>vs'. st' = pre @ [VStruct vs'] \<and> length vs' = length fs \<and>
           (\<forall>j<i. vs' ! j = vs ! j) \<and>
           (\<forall>j. i \<le> j \<and> j < length fs \<and> skipped env (fs ! j) \<longrightarrow> vs' ! j = zero (Type (fs ! j)))"
  using assms
proof (induction "length fs - i" arbitrary: i vs r st')
  case 0
  then have "\<not> i < length fs" by simp
  then have "st' = pre @ [VStruct vs]"
    using "0.prems"(3) by (simp add: decodeFields_step)
  then show ?case using "0.prems"(1) \<open>\<not> i < length fs\<close> by auto
next
  case (Suc k)
  let ?nv = "RTmp (TPtr (TStruct n fs)) (VPtr (Some (Loc (length pre) [])))"
  let ?st = "pre @ [VStruct vs]"
  have i: "i < length fs" and k: "k = length fs - (i + 1)" using Suc.hyps(2) by auto
  have ivs: "i < length vs" using i Suc.prems(1) by simp
  have zi: "vs ! i = zero (Type (fs ! i))" using Suc.prems(2) i by simp
  have skip: "\<exists>vs'. st' = pre @ [VStruct vs'] \<and> length vs' = length fs \<and>
           (\<forall>j<i. vs' ! j = vs ! j) \<and>
           (\<forall>j. i \<le> j \<and> j < length fs \<and> skipped env (fs ! j) \<longrightarrow> vs' ! j = zero (Type (fs ! j)))"
    if rec: "decodeFields lib env (TStruct n fs) ?nv (i + 1) ?st = Inr (r, st')"
  proof -
    from Suc.hyps(1)[OF k Suc.prems(1) _ rec] Suc.prems(2)
    obtain vs' where v: "st' = pre @ [VStruct vs']" "length vs' = length fs"
      "\<forall>j<i + 1. vs' ! j = vs ! j"
      "\<forall>j. i + 1 \<le> j \<and> j < length fs \<and> skipped env (fs ! j) \<longrightarrow> vs' ! j = zero (Type (fs ! j))"
      by auto
    have "vs' ! j = zero (Type (fs ! j))" if "i \<le> j" "j < length fs" "skipped env (fs ! j)" for j
    proof (cases "j = i")
      case True
      then show ?thesis using v(3) zi by simp
    next
      case False
      then show ?thesis using v(4) that by simp
    qed
    then show ?thesis using v by auto
  qed
  show ?case
  proof (cases "PkgPath (fs ! i) \<noteq> []")
    case True
    then have "decodeFields lib env (TStruct n fs) ?nv (i + 1) ?st = Inr (r, st')"
      using Suc.prems(3) i by (simp add: decodeFields_step[of lib env n fs "length pre" i])
    then show ?thesis by (rule skip)
  next
    case exported: False
    obtain s tag ok where p: "probe env (getFieldTags (fs ! i)) ([], [], False) = (s, tag, ok)"
      by (cases "probe env (getFieldTags (fs ! i)) ([], [], False)") auto
    show ?thesis
    proof (cases "s = []")
      case True
      then have "decodeFields lib env (TStruct n fs) ?nv (i + 1) ?st = Inr (r, st')"
        using Suc.prems(3) i exported p by (simp add: decodeFields_step[of lib env n fs "length pre" i])
      then show ?thesis by (rule skip)
    next
      case nonempty: False
      have notskipped: "\<not> skipped env (fs ! i)"
        using exported p nonempty by (simp add: skipped_def)
      let ?dv = "decodeValue lib s (RTmp (TPtr (Type (fs ! i))) (VPtr (Some (Loc (length pre) [i])))) ?st"
      from Suc.prems(3) obtain r2 st2 where dv: "?dv = Inr (r2, st2)"
        using i exported p nonempty
        by (cases ?dv) (auto simp: decodeFields_step[of lib env n fs "length pre" i])
      from decodeValue_field[OF ivs zi dv] obtain x where st2: "st2 = pre @ [VStruct (vs[i := x])]"
        by blast
      show ?thesis
      proof (cases r2)
        case (Some e)
        then have "st' = st2"
          using Suc.prems(3) i exported p nonempty dv
          by (simp add: decodeFields_step[of lib env n fs "length pre" i])
        then have e1: "st' = pre @ [VStruct (vs[i := x])]" using st2 by simp
        have e2: "(vs[i := x]) ! j = zero (Type (fs ! j))"
          if "i \<le> j" "j < length fs" "skipped env (fs ! j)" for j
        proof -
          have "j \<noteq> i" using that(3) notskipped by auto
          then show ?thesis using Suc.prems(2) that by simp
        qed
        show ?thesis using e1 e2 Suc.prems(1)
          by (intro exI[of _ "vs[i := x]"]) auto
      next
        case None
        then have rec: "decodeFields lib env (TStruct n fs) ?nv (i + 1) (pre @ [VStruct (vs[i := x])]) = Inr (r, st')"
          using Suc.prems(3) i exported p nonempty dv st2
          by (simp add: decodeFields_step[of lib env n fs "length pre" i])
        have l2: "length (vs[i := x]) = length fs" using Suc.prems(1) by simp
        have z2: "\<forall>j. i + 1 \<le> j \<and> j < length fs \<longrightarrow> (vs[i := x]) ! j = zero (Type (fs ! j))"
          using Suc.prems(2) by auto
        from Suc.hyps(1)[OF k l2 z2 rec]
        obtain vs' where v: "st' = pre @ [VStruct vs']" "length vs' = length fs"
          "\<forall>j<i + 1. vs' ! j = (vs[i := x]) ! j"
          "\<forall>j. i + 1 \<le> j \<and> j < length fs \<and> skipped env (fs ! j) \<longrightarrow> vs' ! j = zero (Type (fs ! j))"
          by auto
        have a: "\<forall>j<i. vs' ! j = vs ! j" using v(3) by auto
        have b: "vs' ! j = zero (Type (fs ! j))" if "i \<le> j" "j < length fs" "skipped env (fs ! j)" for j
          using that notskipped v(4) by (cases "j = i") auto
        show ?thesis using v(1,2) a b by auto
      qed
    qed
  qed
qed

lemma length_zero_fields: "length (zero_fields fs) = length fs"
proof (induction fs)
  case Nil
  then show ?case by simp
next
  case (Cons f fs)
  then show ?case by (cases f) simp
qed

lemma nth_zero_fields: "j < length fs \<Longrightarrow> zero_fields fs ! j = zero (Type (fs ! j))"
proof (induction fs arbitrary: j)
  case Nil
  then show ?case by simp
next
  case (Cons f fs)
  then show ?case by (cases f; cases j) auto
qed



lemma indirect_path_set:
  "path_set t val st \<Longrightarrow> indirect t val st = Inr (t1, val1, st1) \<Longrightarrow> st1 = st"
proof (induction t val st rule: indirect.induct)
  case (1 t val st)
  show ?case
  proof (cases "type_Kind t = KPtr")
    case False
    then show ?thesis using "1.prems"(2) by (simp add: indirect.simps[of t val st])
  next
    case True
    from "1.prems"(1) True obtain t' val' where
      e: "type_Elem t = Inr t'" and n: "rv_IsNil st val = Inr False"
      and v: "rv_Elem st val = Inr val'" and p: "path_set t' val' st"
      by (auto simp: path_set.simps[of t val st] split: sum.splits)
    have "indirect t' val' st = Inr (t1, val1, st1)"
      using "1.prems"(2) True e n v by (simp add: indirect.simps[of t val st])
    then show ?thesis using "1.IH"[OF True e n _ v p] by simp
  qed
qed


lemma ret_nil_Inr: "ret_nil r = Inr (e, st') \<longleftrightarrow> e = None \<and> r = Inr st'"
  by (cases r) (auto simp: ret_nil_def)

lemma Decode_cases:
  assumes "Decode lib env (Some (t, x)) st = Inr (r, st')"
  shows "(type_Kind t \<noteq> KPtr \<and> st' = st \<and> r \<noteq> None) \<or>
    (\<exists>t1 val1 st1. type_Kind t = KPtr \<and> indirect t (RTmp t x) st = Inr (t1, val1, st1) \<and>
       ((type_Kind t1 \<noteq> KStruct \<and> st' = st1 \<and> r \<noteq> None) \<or>
        (\<exists>n fs r3 st3. t1 = TStruct n fs \<and>
           decodeFields lib env t1 (RTmp (TPtr t1) (VPtr (Some (Loc (length st1) [])))) 0
             (st1 @ [VStruct (zero_fields fs)]) = Inr (r3, st3) \<and>
           ((r3 \<noteq> None \<and> r = r3 \<and> st' = st3) \<or>
            (r3 = None \<and> r = None \<and>
             rv_Set st3 val1 (RVar t1 (Loc (length st1) [])) = Inr st')))))"
proof (cases "type_Kind t = KPtr")
  case False
  then show ?thesis using assms by (auto simp: Decode_def)
next
  case True
  with assms obtain t1 val1 st1 where ind: "indirect t (RTmp t x) st = Inr (t1, val1, st1)"
    by (cases "indirect t (RTmp t x) st") (auto simp: Decode_def)
  show ?thesis
  proof (cases "type_Kind t1 = KStruct")
    case False
    then show ?thesis using assms True ind by (auto simp: Decode_def)
  next
    case struct: True
    then obtain n fs where t1: "t1 = TStruct n fs" by (cases t1) auto
    let ?nv = "RTmp (TPtr t1) (VPtr (Some (Loc (length st1) [])))"
    let ?df = "decodeFields lib env t1 ?nv 0 (st1 @ [VStruct (zero_fields fs)])"
    from assms True ind struct t1 obtain r3 st3 where df: "?df = Inr (r3, st3)"
      by (cases ?df) (auto simp: Decode_def reflect_New_def)
    show ?thesis
    proof (cases r3)
      case (Some e)
      then show ?thesis using assms True ind struct t1 df
        by (auto simp: Decode_def reflect_New_def)
    next
      case None
      then have "ret_nil (rv_Set st3 val1 (RVar t1 (Loc (length st1) []))) = Inr (r, st')"
        using assms True ind struct t1 df
        by (auto simp: Decode_def reflect_New_def rv_Elem_ptr)
      then show ?thesis using True ind t1 df None by (auto simp: ret_nil_Inr)
    qed
  qed
qed

subsection \<open>What a successful Decode leaves in the record\<close>




subsection \<open>What a failed Decode leaves in the store\<close>

text \<open>
  Claim C1 says that whenever \<open>Decode\<close> returns an error the destination has its value
  from before the call, also when a pointer on the way to the record is nil. For a pointer
  to a nil pointer to a struct and a value that does not convert, \<open>Decode\<close> returns the
  error, and the pointer that was nil points to a new zero struct.
\<close>

theorem Decode_error_allocates_counterexample:
  "Decode sample_lib [''X'' \<mapsto> ''abc''] (Some (TPtr (TPtr IntBox), VPtr (Some (Loc 0 []))))
     [VPtr None] =
     Inr (Some (DecodeError (''unable to decode value in field '' @ [CHR 0x27] @ ''X'' @ [CHR 0x27])
                  ''X'' (Some (NumError ''ParseInt'' ''abc'' ErrSyntax))),
          [VPtr (Some (Loc 1 [])), VStruct [VInt 0], VStruct [VInt 0]])"
  by code_simp

text \<open>
  Claim C1, amended: when \<open>Decode\<close> returns an error, every object that existed before the
  call has the value that the loop over the pointers left it with: the loop over the fields
  writes only into the new instance, which is dropped. When every pointer on the way from
  the argument to the record is set, the loop over the pointers writes nothing, and every
  object that existed before the call has its value from before the call.
\<close>

theorem Decode_error_keeps_store:
  assumes "Decode lib env v st = Inr (Some e, st')"
  shows "(\<forall>t x. v = Some (t, x) \<and> path_set t (RTmp t x) st \<longrightarrow> take (length st) st' = st) \<and>
         (\<forall>t x. v = Some (t, x) \<and> type_Kind t = KPtr \<longrightarrow>
            (\<exists>t1 val1 st1. indirect t (RTmp t x) st = Inr (t1, val1, st1) \<and>
               take (length st1) st' = st1)) \<and>
         (v = None \<longrightarrow> st' = st)"
proof -
  have a: "\<exists>t1 val1 st1. indirect t (RTmp t x) st = Inr (t1, val1, st1) \<and> take (length st1) st' = st1"
    if v: "v = Some (t, x)" and k: "type_Kind t = KPtr" for t x
  proof -
    from Decode_cases[OF assms[unfolded v]] k obtain t1 val1 st1 where
      ind: "indirect t (RTmp t x) st = Inr (t1, val1, st1)" and
      c: "(type_Kind t1 \<noteq> KStruct \<and> st' = st1) \<or>
        (\<exists>n fs r3. t1 = TStruct n fs \<and>
           decodeFields lib env t1 (RTmp (TPtr t1) (VPtr (Some (Loc (length st1) [])))) 0
             (st1 @ [VStruct (zero_fields fs)]) = Inr (r3, st'))"
      by auto
    from c have "take (length st1) st' = st1"
    proof
      assume "type_Kind t1 \<noteq> KStruct \<and> st' = st1"
      then show ?thesis by simp
    next
      assume "\<exists>n fs r3. t1 = TStruct n fs \<and>
           decodeFields lib env t1 (RTmp (TPtr t1) (VPtr (Some (Loc (length st1) [])))) 0
             (st1 @ [VStruct (zero_fields fs)]) = Inr (r3, st')"
      then obtain n fs r3 where t1: "t1 = TStruct n fs" and
        df: "decodeFields lib env (TStruct n fs)
               (RTmp (TPtr (TStruct n fs)) (VPtr (Some (Loc (length st1) [])))) 0
               (st1 @ [VStruct (zero_fields fs)]) = Inr (r3, st')"
        by auto
      from decodeFields_fresh[OF length_zero_fields _ df]
      obtain vs where "st' = st1 @ [VStruct vs]"
        by (auto simp: nth_zero_fields)
      then show ?thesis by simp
    qed
    then show ?thesis using ind by blast
  qed
  have b: "take (length st) st' = st" if v: "v = Some (t, x)" and p: "path_set t (RTmp t x) st" for t x
  proof (cases "type_Kind t = KPtr")
    case True
    from a[OF v True] obtain t1 val1 st1 where
      "indirect t (RTmp t x) st = Inr (t1, val1, st1)" "take (length st1) st' = st1"
      by blast
    then show ?thesis using indirect_path_set[OF p] by simp
  next
    case False
    then show ?thesis using Decode_cases[OF assms[unfolded v]] by auto
  qed
  have c: "st' = st" if "v = None"
    using assms that by (simp add: Decode_def)
  from a b c show ?thesis by blast
qed

theorem Decode_error_keeps_store_witness:
  "Decode sample_lib [''X'' \<mapsto> ''abc''] (Some (TPtr (TPtr IntBox), VPtr (Some (Loc 0 []))))
     [VPtr (Some (Loc 1 [])), VStruct [VInt 5]] =
     Inr (Some (DecodeError (''unable to decode value in field '' @ [CHR 0x27] @ ''X'' @ [CHR 0x27])
                  ''X'' (Some (NumError ''ParseInt'' ''abc'' ErrSyntax))),
          [VPtr (Some (Loc 1 [])), VStruct [VInt 5], VStruct [VInt 0]]) \<and>
   path_set (TPtr (TPtr IntBox)) (RTmp (TPtr (TPtr IntBox)) (VPtr (Some (Loc 0 []))))
     [VPtr (Some (Loc 1 [])), VStruct [VInt 5]] \<and>
   take (length [VPtr (Some (Loc 1 [])), VStruct [VInt 5]])
     [VPtr (Some (Loc 1 [])), VStruct [VInt 5], VStruct [VInt 0]] =
     [VPtr (Some (Loc 1 [])), VStruct [VInt 5]] \<and>
   Decode sample_lib [''X'' \<mapsto> ''abc''] None [VStruct [VInt 5]] =
     Inr (Some (DecodeError ''must decode to pointer'' [] None), [VStruct [VInt 5]])"
proof -
  have ev: "Decode sample_lib [''X'' \<mapsto> ''abc''] (Some (TPtr (TPtr IntBox), VPtr (Some (Loc 0 []))))
     [VPtr (Some (Loc 1 [])), VStruct [VInt 5]] =
     Inr (Some (DecodeError (''unable to decode value in field '' @ [CHR 0x27] @ ''X'' @ [CHR 0x27])
                  ''X'' (Some (NumError ''ParseInt'' ''abc'' ErrSyntax))),
          [VPtr (Some (Loc 1 [])), VStruct [VInt 5], VStruct [VInt 0]])"
    by code_simp
  have p: "path_set (TPtr (TPtr IntBox)) (RTmp (TPtr (TPtr IntBox)) (VPtr (Some (Loc 0 []))))
     [VPtr (Some (Loc 1 [])), VStruct [VInt 5]]"
    by code_simp
  from Decode_error_keeps_store[OF ev] p
  have t: "take (length [VPtr (Some (Loc 1 [])), VStruct [VInt 5]])
     [VPtr (Some (Loc 1 [])), VStruct [VInt 5], VStruct [VInt 0]] =
     [VPtr (Some (Loc 1 [])), VStruct [VInt 5]]"
    by blast
  have n: "Decode sample_lib [''X'' \<mapsto> ''abc''] None [VStruct [VInt 5]] =
     Inr (Some (DecodeError ''must decode to pointer'' [] None), [VStruct [VInt 5]])"
    by code_simp
  from Decode_error_keeps_store[OF n] have "[VStruct [VInt 5]] = [VStruct [VInt 5]]"
    by blast
  with ev p t n show ?thesis by blast
qed

subsection \<open>An empty value and an unset variable\<close>

lemma probe_none:
  "\<forall>k\<in>set ks. env k = None \<Longrightarrow> ks \<noteq> [] \<Longrightarrow> fst (probe env ks (s0, t0, o0)) = []"
proof (induction ks arbitrary: s0 t0 o0)
  case Nil
  then show ?case by simp
next
  case (Cons k ks)
  then show ?case by (cases ks) (auto simp: LookupEnv_def)
qed

lemma probe_empty_unset:
  assumes "env1 k = Some []" and "env2 k = None" and "\<forall>x. x \<noteq> k \<longrightarrow> env1 x = env2 x"
    and "\<forall>k'\<in>set (dropWhile (\<lambda>x. x \<noteq> k) ks). env2 k' = None"
  shows "fst (probe env1 ks (s0, t0, o0)) = fst (probe env2 ks (s0, t0, o0)) \<and>
         (fst (probe env1 ks (s0, t0, o0)) = [] \<or>
          fst (snd (probe env1 ks (s0, t0, o0))) = fst (snd (probe env2 ks (s0, t0, o0))))"
  using assms(4)
proof (induction ks arbitrary: s0 t0 o0)
  case Nil
  show ?case by simp
next
  case (Cons x ks)
  show ?case
  proof (cases "x = k")
    case True
    have "\<forall>k'\<in>set (x # ks). env2 k' = None"
      using Cons.prems True by auto
    then have a: "fst (probe env2 (x # ks) (s0, t0, o0)) = []"
      by (intro probe_none[of "x # ks" env2 s0 t0 o0]) simp_all
    have b: "probe env1 (x # ks) (s0, t0, o0) = ([], k, True)"
      using True assms(1) by (simp add: LookupEnv_def)
    show ?thesis unfolding b using a by simp
  next
    case False
    then have "\<forall>k'\<in>set (dropWhile (\<lambda>x. x \<noteq> k) ks). env2 k' = None"
      using Cons.prems by simp
    note ih = Cons.IH[OF this, of "[]" x False]
    have l: "LookupEnv env1 x = LookupEnv env2 x"
      using False assms(3) by (simp add: LookupEnv_def)
    show ?thesis
    proof (cases "env2 x")
      case None
      then have e: "probe env1 (x # ks) (s0, t0, o0) = probe env1 ks ([], x, False)"
        "probe env2 (x # ks) (s0, t0, o0) = probe env2 ks ([], x, False)"
        using l by (simp_all add: LookupEnv_def)
      show ?thesis unfolding e by (rule ih)
    next
      case (Some v)
      then have "probe env1 (x # ks) (s0, t0, o0) = (v, x, True)"
        "probe env2 (x # ks) (s0, t0, o0) = (v, x, True)"
        using l by (simp_all add: LookupEnv_def)
      then show ?thesis by simp
    qed
  qed
qed

lemma decodeFields_env_cong:
  assumes "\<forall>j f. i \<le> j \<and> type_Field t j = Inr f \<and> PkgPath f = [] \<longrightarrow> same_lookup env1 env2 f"
  shows "decodeFields lib env1 t nv i st = decodeFields lib env2 t nv i st"
  using assms
proof (induction "nfields t - i" arbitrary: i st)
  case 0
  then have "\<And>f. type_Field t i \<noteq> Inr f"
    using type_Field_less[of t i] by auto
  then show ?case
    by (simp add: decodeFields.simps[of lib env1 t nv i st] decodeFields.simps[of lib env2 t nv i st]
        split: sum.splits)
next
  case (Suc k)
  have p: "\<forall>j f. i + 1 \<le> j \<and> type_Field t j = Inr f \<and> PkgPath f = [] \<longrightarrow> same_lookup env1 env2 f"
  proof (intro allI impI)
    fix j f
    assume a: "i + 1 \<le> j \<and> type_Field t j = Inr f \<and> PkgPath f = []"
    then have "i \<le> j" by simp
    then show "same_lookup env1 env2 f" using Suc.prems a by blast
  qed
  have ih: "decodeFields lib env1 t nv (i + 1) st' = decodeFields lib env2 t nv (i + 1) st'" for st'
    using Suc.hyps(2) by (intro Suc.hyps(1) p) simp
  have sl: "same_lookup env1 env2 f" if "type_Field t i = Inr f" "PkgPath f = []" for f
    using Suc.prems that by auto
  show ?case
    using ih sl
    by (auto simp add: decodeFields.simps[of lib env1 t nv i st] decodeFields.simps[of lib env2 t nv i st]
        same_lookup_def Let_def
        split: sum.splits prod.splits option.splits)
qed

lemma indirect_fields:
  "indirect t val st = Inr (t1, val1, st1) \<Longrightarrow> struct_fields t1 = struct_fields t"
proof (induction t val st rule: indirect.induct)
  case (1 t val st)
  show ?case
  proof (cases "type_Kind t = KPtr")
    case False
    then show ?thesis using "1.prems" by (simp add: indirect.simps[of t val st])
  next
    case True
    then obtain t' where t: "t = TPtr t'" by (cases t) auto
    then have e: "type_Elem t = Inr t'" by (simp add: type_Elem_def)
    from "1.prems" True e obtain isnil st' val' where
      n: "rv_IsNil st val = Inr isnil" and
      s: "(if isnil then (let (p, st1) = reflect_New t' st in rv_Set st1 val p) else Inr st) = Inr st'" and
      v: "rv_Elem st' val = Inr val'" and
      r: "indirect t' val' st' = Inr (t1, val1, st1)"
      by (auto simp: indirect.simps[of t val st] split: sum.splits)
    from "1.IH"[OF True e n s v r] show ?thesis using t by simp
  qed
qed

lemma type_Field_mem: "type_Field t j = Inr f \<Longrightarrow> f \<in> set (struct_fields t)"
  by (cases t) (auto simp: type_Field_def split: if_splits)

text \<open>
  Claim C4 says that a variable set to the empty string is treated as an unset one for any
  list of keys. For the keys \<^verbatim>\<open>A,B\<close> with \<^verbatim>\<open>B\<close> set to \<^verbatim>\<open>5\<close>: with \<^verbatim>\<open>A\<close>
  set to the empty string the lookup stops at \<^verbatim>\<open>A\<close> and the field stays 0; with
  \<^verbatim>\<open>A\<close> unset the lookup goes on to \<^verbatim>\<open>B\<close> and the field is 5.
\<close>

theorem Decode_empty_shadows_counterexample:
  "Decode sample_lib [''A'' \<mapsto> [], ''B'' \<mapsto> ''5''] (Some (TPtr TwoKeys, VPtr (Some (Loc 0 []))))
     [VStruct [VInt 0]] =
     Inr (None, [VStruct [VInt 0], VStruct [VInt 0]]) \<and>
   Decode sample_lib ([''A'' \<mapsto> [], ''B'' \<mapsto> ''5''](''A'' := None))
     (Some (TPtr TwoKeys, VPtr (Some (Loc 0 [])))) [VStruct [VInt 0]] =
     Inr (None, [VStruct [VInt 5], VStruct [VInt 5]])"
  by code_simp

text \<open>
  Claim C4, amended: a variable set to the empty string gives the same result of \<open>Decode\<close>
  as the same variable unset, provided that in the key list of every exported field no key
  listed after it is held by the environment; that is so for every field with a single key.
\<close>

theorem Decode_empty_as_unset:
  assumes "\<forall>f\<in>set (struct_fields t). PkgPath f = [] \<longrightarrow>
             (\<forall>k'\<in>set (dropWhile (\<lambda>x. x \<noteq> k) (getFieldTags f)). k' \<noteq> k \<longrightarrow> env k' = None)"
  shows "Decode lib (env(k \<mapsto> [])) (Some (t, x)) st = Decode lib (env(k := None)) (Some (t, x)) st"
proof -
  let ?e1 = "env(k \<mapsto> [])" and ?e2 = "env(k := None)"
  have sl: "same_lookup ?e1 ?e2 f" if f: "f \<in> set (struct_fields t)" "PkgPath f = []" for f
  proof -
    have "\<forall>k'\<in>set (dropWhile (\<lambda>x. x \<noteq> k) (getFieldTags f)). ?e2 k' = None"
      using assms f by auto
    from probe_empty_unset[of ?e1 k ?e2 "getFieldTags f" "[]" "[]" False, OF _ _ _ this]
    show ?thesis by (auto simp: same_lookup_def split: prod.splits)
  qed
  have df: "decodeFields lib ?e1 t1 nv 0 s = decodeFields lib ?e2 t1 nv 0 s"
    if "indirect t (RTmp t x) st = Inr (t1, val1, st1)" for t1 val1 st1 nv s
    using sl indirect_fields[OF that] type_Field_mem[of t1]
    by (intro decodeFields_env_cong) auto
  show ?thesis
  proof (cases "indirect t (RTmp t x) st")
    case (Inl f)
    then show ?thesis by (simp add: Decode_def)
  next
    case (Inr r)
    then obtain t1 val1 st1 where r: "indirect t (RTmp t x) st = Inr (t1, val1, st1)"
      by (cases r) auto
    show ?thesis using r df[OF r] by (simp add: Decode_def split: prod.splits)
  qed
qed

theorem Decode_empty_as_unset_witness:
  "Decode sample_lib ([''HOST'' \<mapsto> ''old''](''HOST'' \<mapsto> []))
     (Some (TPtr Config, VPtr (Some (Loc 0 [])))) [VStruct [VString ''x'', VInt 1, VBool True]] =
   Decode sample_lib ([''HOST'' \<mapsto> ''old''](''HOST'' := None))
     (Some (TPtr Config, VPtr (Some (Loc 0 [])))) [VStruct [VString ''x'', VInt 1, VBool True]] \<and>
   Decode sample_lib ([''HOST'' \<mapsto> ''old''](''HOST'' \<mapsto> []))
     (Some (TPtr Config, VPtr (Some (Loc 0 [])))) [VStruct [VString ''x'', VInt 1, VBool True]] =
     Inr (None, [VStruct [VString [], VInt 0, VBool False], VStruct [VString [], VInt 0, VBool False]])"
proof -
  have h: "\<forall>f\<in>set (struct_fields (TPtr Config)). PkgPath f = [] \<longrightarrow>
      (\<forall>k'\<in>set (dropWhile (\<lambda>x. x \<noteq> ''HOST'') (getFieldTags f)). k' \<noteq> ''HOST'' \<longrightarrow>
         [''HOST'' \<mapsto> ''old''] k' = None)"
    by (simp add: Config_def getFieldTags_eq mpe_keys_def json_key_def)
  have ev: "Decode sample_lib ([''HOST'' \<mapsto> ''old''](''HOST'' \<mapsto> []))
     (Some (TPtr Config, VPtr (Some (Loc 0 [])))) [VStruct [VString ''x'', VInt 1, VBool True]] =
     Inr (None, [VStruct [VString [], VInt 0, VBool False], VStruct [VString [], VInt 0, VBool False]])"
    by code_simp
  from Decode_empty_as_unset[OF h, of sample_lib "VPtr (Some (Loc 0 []))"
      "[VStruct [VString ''x'', VInt 1, VBool True]]"] ev
  show ?thesis by blast
qed

end
